theory Spec2Isabelle
  imports Complex_Main "HOL-Library.AList"
begin

section \<open>Python strings\<close>

text \<open>
  A Python \<open>str\<close> is a sequence of code points. This first model reads an Isabelle
  \<open>char\<close> as the code point of the same number, so it covers the strings whose code points
  lie in U+0000..U+00FF; the fields of a customer record are such strings. On that range
  \<open>str.lower\<close> maps one character to one character, and the classes \<open>\w\<close> and \<open>\s\<close> of
  \<open>re\<close> (for \<open>str\<close> patterns) and the whitespace removed by \<open>str.strip\<close> are the ones
  below. The normalizer on strings of all code points follows as a second model.
\<close>

definition lower_char :: "char \<Rightarrow> char" where
  "lower_char c =
     (let n = (of_char c :: nat)
      in if (65 \<le> n \<and> n \<le> 90) \<or> (192 \<le> n \<and> n \<le> 214) \<or> (216 \<le> n \<and> n \<le> 222)
         then char_of (n + 32) else c)"

definition py_lower :: "string \<Rightarrow> string" where
  "py_lower s = map lower_char s"

definition is_space :: "char \<Rightarrow> bool" where
  "is_space c =
     (let n = (of_char c :: nat)
      in (9 \<le> n \<and> n \<le> 13) \<or> (28 \<le> n \<and> n \<le> 32) \<or> n = 133 \<or> n = 160)"

definition is_alnum :: "char \<Rightarrow> bool" where
  "is_alnum c =
     (let n = (of_char c :: nat)
      in (48 \<le> n \<and> n \<le> 57) \<or> (65 \<le> n \<and> n \<le> 90) \<or> (97 \<le> n \<and> n \<le> 122)
         \<or> n = 170 \<or> n = 178 \<or> n = 179 \<or> n = 181 \<or> n = 185 \<or> n = 186
         \<or> (188 \<le> n \<and> n \<le> 190) \<or> (192 \<le> n \<and> n \<le> 214)
         \<or> (216 \<le> n \<and> n \<le> 246) \<or> (248 \<le> n \<and> n \<le> 255))"

text \<open>The class \<open>\w\<close>: alphanumeric characters and the underscore.\<close>

definition is_word :: "char \<Rightarrow> bool" where
  "is_word c = (is_alnum c \<or> c = CHR ''_'')"

definition is_dash :: "char \<Rightarrow> bool" where
  "is_dash c = (c = CHR ''-'')"

text \<open>\<open>s.strip()\<close>: whitespace is removed at both ends.\<close>

definition py_strip :: "string \<Rightarrow> string" where
  "py_strip s = rev (dropWhile is_space (rev (dropWhile is_space s)))"

text \<open>
  \<open>re.sub(r"[^\w\s-]", "", s)\<close> deletes every character outside the class, which keeps the
  characters of the class.
\<close>

definition re_sub_delete_others :: "string \<Rightarrow> string" where
  "re_sub_delete_others s = filter (\<lambda>c. is_word c \<or> is_space c \<or> is_dash c) s"

text \<open>
  \<open>re.sub(r"X+", rep, s)\<close> for a one-character class \<open>X\<close>: scanning from the left, each
  maximal run of characters of the class is replaced by \<open>rep\<close>, every other character is
  copied.
\<close>

function re_sub_plus :: "('a \<Rightarrow> bool) \<Rightarrow> 'a list \<Rightarrow> 'a list \<Rightarrow> 'a list" where
  "re_sub_plus P rep [] = []"
| "re_sub_plus P rep (c # cs) =
     (if P c then rep @ re_sub_plus P rep (dropWhile P cs) else c # re_sub_plus P rep cs)"
  by pat_completeness auto
termination
  by (relation "measure (\<lambda>(P, rep, s). length s)")
     (auto simp: length_dropWhile_le less_Suc_eq_le)

section \<open>The slug normalizer\<close>

text \<open>
  The body of \<open>slugify\<close> on a string, statement by statement. The two scripts of the
  repository define \<open>slugify\<close>, \<open>build_snowplow_vars\<close> and \<open>handle_project_dir\<close> with the
  same bodies.
\<close>

definition slugify_str :: "string \<Rightarrow> string" where
  "slugify_str name =
     (let s = py_lower name;
          s = re_sub_delete_others s;
          s = re_sub_plus is_space ''-'' (py_strip s);
          s = re_sub_plus is_dash ''-'' s
      in s)"

section \<open>The slug normalizer on all code points\<close>

text \<open>
  \<open>slugify\<close> receives any \<open>str\<close>. Beyond U+00FF \<open>str.lower\<close> is no map of single
  characters: a character may become several, and U+03A3 becomes one of two characters
  according to its neighbours. This second model takes a string as the list of its code
  points and the character database of the interpreter as a parameter: the full
  lower-case mapping, the properties Cased and Case_Ignorable, and the tests behind
  \<open>str.isalnum\<close> and \<open>str.isspace\<close>, which are also the classes \<open>\w\<close> (with the underscore)
  and \<open>\s\<close> of \<open>re\<close> and the whitespace of \<open>str.strip\<close>.
\<close>

type_synonym ustring = "nat list"

record unicode_tables =
  to_lower_full :: "nat \<Rightarrow> nat list"
  is_cased :: "nat \<Rightarrow> bool"
  is_case_ignorable :: "nat \<Rightarrow> bool"
  unicode_isalnum :: "nat \<Rightarrow> bool"
  unicode_isspace :: "nat \<Rightarrow> bool"

abbreviation CAPITAL_SIGMA :: nat where "CAPITAL_SIGMA \<equiv> 0x3A3"
abbreviation SMALL_SIGMA :: nat where "SMALL_SIGMA \<equiv> 0x3C3"
abbreviation SMALL_FINAL_SIGMA :: nat where "SMALL_FINAL_SIGMA \<equiv> 0x3C2"
abbreviation HYPHEN_MINUS :: nat where "HYPHEN_MINUS \<equiv> 0x2D"
abbreviation LOW_LINE :: nat where "LOW_LINE \<equiv> 0x5F"

text \<open>
  The lower case of U+03A3: the final form when a cased character precedes it, case-ignorable
  characters skipped, and none follows it in the same way. \<open>before\<close> lists the preceding
  characters from the nearest on, \<open>after\<close> the following ones.
\<close>

definition handle_capital_sigma :: "unicode_tables \<Rightarrow> ustring \<Rightarrow> ustring \<Rightarrow> nat" where
  "handle_capital_sigma T before after =
     (let final_sigma = (case dropWhile (is_case_ignorable T) before of
                           [] \<Rightarrow> False | c # cs \<Rightarrow> is_cased T c);
          final_sigma = (final_sigma \<and>
                         (case dropWhile (is_case_ignorable T) after of
                            [] \<Rightarrow> True | c # cs \<Rightarrow> \<not> is_cased T c))
      in if final_sigma then SMALL_FINAL_SIGMA else SMALL_SIGMA)"

definition lower_ucs4 :: "unicode_tables \<Rightarrow> ustring \<Rightarrow> nat \<Rightarrow> ustring \<Rightarrow> ustring" where
  "lower_ucs4 T before c after =
     (if c = CAPITAL_SIGMA then [handle_capital_sigma T before after] else to_lower_full T c)"

fun do_lower :: "unicode_tables \<Rightarrow> ustring \<Rightarrow> ustring \<Rightarrow> ustring" where
  "do_lower T before [] = []"
| "do_lower T before (c # cs) = lower_ucs4 T before c cs @ do_lower T (c # before) cs"

text \<open>\<open>s.lower()\<close>, \<open>s.strip()\<close> and the two character classes.\<close>

definition unicode_lower :: "unicode_tables \<Rightarrow> ustring \<Rightarrow> ustring" where
  "unicode_lower T s = do_lower T [] s"

definition unicode_strip :: "unicode_tables \<Rightarrow> ustring \<Rightarrow> ustring" where
  "unicode_strip T s = rev (dropWhile (unicode_isspace T) (rev (dropWhile (unicode_isspace T) s)))"

definition unicode_isword :: "unicode_tables \<Rightarrow> nat \<Rightarrow> bool" where
  "unicode_isword T c = (unicode_isalnum T c \<or> c = LOW_LINE)"

definition in_kept_class :: "unicode_tables \<Rightarrow> nat \<Rightarrow> bool" where
  "in_kept_class T c = (unicode_isword T c \<or> unicode_isspace T c \<or> c = HYPHEN_MINUS)"

definition slugify_unicode :: "unicode_tables \<Rightarrow> ustring \<Rightarrow> ustring" where
  "slugify_unicode T name =
     (let s = unicode_lower T name;
          s = filter (in_kept_class T) s;
          s = re_sub_plus (unicode_isspace T) [HYPHEN_MINUS] (unicode_strip T s);
          s = re_sub_plus (\<lambda>c. c = HYPHEN_MINUS) [HYPHEN_MINUS] s
      in s)"

text \<open>No two neighbours of a list both satisfy \<open>P\<close>.\<close>

fun no_double :: "('a \<Rightarrow> bool) \<Rightarrow> 'a list \<Rightarrow> bool" where
  "no_double P [] = True"
| "no_double P [c] = True"
| "no_double P (a # b # cs) = (\<not> (P a \<and> P b) \<and> no_double P (b # cs))"

text \<open>
  What the properties of the normalizer need of the character database: every character
  of a lower-case mapping is itself left alone by the mapping, as are the two small
  sigmas and the hyphen, and the hyphen is no whitespace.
\<close>

definition fixed_by_lower :: "unicode_tables \<Rightarrow> nat \<Rightarrow> bool" where
  "fixed_by_lower T c = (c \<noteq> CAPITAL_SIGMA \<and> to_lower_full T c = [c])"

definition lower_stable :: "unicode_tables \<Rightarrow> bool" where
  "lower_stable T =
     (\<forall>c. c \<noteq> CAPITAL_SIGMA \<longrightarrow>
        (\<forall>d \<in> set (to_lower_full T c). d \<noteq> CAPITAL_SIGMA \<and> to_lower_full T d = [d]))"

definition tables_ok :: "unicode_tables \<Rightarrow> bool" where
  "tables_ok T =
     (lower_stable T
      \<and> to_lower_full T SMALL_SIGMA = [SMALL_SIGMA]
      \<and> to_lower_full T SMALL_FINAL_SIGMA = [SMALL_FINAL_SIGMA]
      \<and> to_lower_full T HYPHEN_MINUS = [HYPHEN_MINUS]
      \<and> \<not> unicode_isspace T HYPHEN_MINUS)"

text \<open>
  The database agrees with the tables of the first model on the code points below 256;
  and a database that does, with no mapping and no class above them.
\<close>

definition agrees_below_256 :: "unicode_tables \<Rightarrow> bool" where
  "agrees_below_256 T =
     (\<forall>c :: char. to_lower_full T (of_char c) = [of_char (lower_char c)]
                  \<and> unicode_isalnum T (of_char c) = is_alnum c
                  \<and> unicode_isspace T (of_char c) = is_space c)"

definition latin1_tables :: unicode_tables where
  "latin1_tables =
     \<lparr> to_lower_full = (\<lambda>c. if c < 256 then [of_char (lower_char (char_of c))] else [c]),
       is_cased = (\<lambda>c. False),
       is_case_ignorable = (\<lambda>c. False),
       unicode_isalnum = (\<lambda>c. c < 256 \<and> is_alnum (char_of c)),
       unicode_isspace = (\<lambda>c. c < 256 \<and> is_space (char_of c)) \<rparr>"


section \<open>Values read from JSON\<close>

text \<open>
  \<open>json.loads\<close> yields \<open>None\<close>, booleans, integers, floats, strings, lists and dicts. A
  float is kept as the rational it denotes, or as one of the three special values; only
  its truth value is ever inspected. A dict is an association list in insertion order,
  each key once; a lookup takes the first entry of a key.
\<close>

datatype pyfloat = Finite rat | Infinite bool | NaN

datatype json =
    JNull
  | JBool bool
  | JInt int
  | JFloat pyfloat
  | JStr string
  | JList "json list"
  | JDict "(string \<times> json) list"

datatype py_error =
    AttributeError
  | EOFError
  | FileNotFoundError
  | FileExistsError
  | NotADirectoryError
  | IsADirectoryError
  | OSError
  | ShutilError

type_synonym pydict = "(string \<times> json) list"

text \<open>\<open>d.get(k, default)\<close>.\<close>

definition dict_get :: "pydict \<Rightarrow> string \<Rightarrow> json \<Rightarrow> json" where
  "dict_get d k dflt = (case map_of d k of None \<Rightarrow> dflt | Some v \<Rightarrow> v)"

text \<open>\<open>d.update(other)\<close>: the items of \<open>other\<close> are stored one after the other.\<close>

definition dict_update :: "pydict \<Rightarrow> pydict \<Rightarrow> pydict" where
  "dict_update d other = fold (\<lambda>(k, v). AList.update k v) other d"

text \<open>The truth value of an object, as \<open>if x:\<close> tests it.\<close>

fun truthy :: "json \<Rightarrow> bool" where
  "truthy JNull = False"
| "truthy (JBool b) = b"
| "truthy (JInt i) = (i \<noteq> 0)"
| "truthy (JFloat f) = (f \<noteq> Finite 0)"
| "truthy (JStr s) = (s \<noteq> [])"
| "truthy (JList xs) = (xs \<noteq> [])"
| "truthy (JDict d) = (d \<noteq> [])"

text \<open>\<open>x.lower()\<close>: only a string has the method.\<close>

fun str_lower :: "json \<Rightarrow> py_error + string" where
  "str_lower (JStr s) = Inr (py_lower s)"
| "str_lower v = Inl AttributeError"

text \<open>\<open>slugify\<close> as it is called: its first statement is \<open>name.lower()\<close>.\<close>

fun slugify :: "json \<Rightarrow> py_error + string" where
  "slugify (JStr name) = Inr (slugify_str name)"
| "slugify v = Inl AttributeError"

section \<open>The variables block\<close>

definition build_snowplow_vars :: "pydict \<Rightarrow> py_error + pydict" where
  "build_snowplow_vars customer_json =
     (let vars_block = [];
          user_vars = dict_get customer_json ''user_set_variables'' (JDict []);
          vars_block = (case user_vars of JDict d \<Rightarrow> dict_update vars_block d | _ \<Rightarrow> vars_block);
          start_date = dict_get customer_json ''historical_data_since'' JNull;
          vars_block = (if truthy start_date
                        then AList.update ''snowplow__start_date'' start_date vars_block
                        else vars_block)
      in case str_lower (dict_get customer_json ''mobile_tracking'' (JStr '''')) of
           Inl e \<Rightarrow> Inl e
         | Inr mobile \<Rightarrow>
             (let vars_block = AList.update ''snowplow__enable_mobile_data''
                                 (JBool (mobile = ''yes'')) vars_block
              in case str_lower (dict_get customer_json ''web_tracking'' (JStr '''')) of
                   Inl e \<Rightarrow> Inl e
                 | Inr web \<Rightarrow>
                     (let vars_block = AList.update ''snowplow__enable_web_data''
                                         (JBool (web = ''yes'')) vars_block;
                          app_ids = dict_get customer_json ''app_ids'' JNull;
                          vars_block = (if truthy app_ids
                                        then AList.update ''snowplow__app_ids'' app_ids vars_block
                                        else vars_block);
                          vars_block = AList.update ''snowplow__brand_name''
                                         (dict_get customer_json ''brand_name'' JNull) vars_block
                      in Inr vars_block)))"


section \<open>The configuration tree\<close>

text \<open>
  The objects handed to the YAML serializer: plain values, double-quoted scalar strings
  (\<open>dqs\<close>), sequences in flow style (\<open>make_inline_seq\<close>), plain lists, and ordered mappings
  (\<open>CommentedMap\<close>).
\<close>

datatype node =
    Plain json
  | Dqs string
  | FlowSeq "node list"
  | BlockSeq "node list"
  | CMap "(string \<times> node) list"

definition make_inline_seq :: "node list \<Rightarrow> node" where
  "make_inline_seq items = FlowSeq items"

definition plain_str :: "string \<Rightarrow> node" where
  "plain_str s = Plain (JStr s)"

text \<open>\<open>tree[k]\<close> on a mapping node.\<close>

fun node_get :: "node \<Rightarrow> string \<Rightarrow> node option" where
  "node_get (CMap kvs) k = map_of kvs k"
| "node_get n k = None"

definition DEFAULT_PACKAGE_GIT :: string where
  "DEFAULT_PACKAGE_GIT = ''https://github.com/snowplow/snowplow-unified-dbt.git''"

definition DEFAULT_PACKAGE_REF :: string where
  "DEFAULT_PACKAGE_REF = ''main''"

definition packages_obj :: "string \<Rightarrow> string \<Rightarrow> node" where
  "packages_obj package_git package_ref =
     CMap [(''packages'',
            BlockSeq [CMap [(''git'', plain_str package_git), (''revision'', plain_str package_ref)]])]"

definition models_obj :: node where
  "models_obj =
     CMap [(''snowplow_unified'',
       CMap [(''base'',
                CMap [(''manifest'', CMap [(''+schema'', plain_str ''my_manifest_schema'')]),
                      (''scratch'', CMap [(''+schema'', plain_str ''my_scratch_schema'')])]),
             (''sessions'',
                CMap [(''+schema'', plain_str ''my_derived_schema''),
                      (''scratch'', CMap [(''+schema'', plain_str ''my_scratch_schema'')])])])]"

definition dbt_project_obj :: "string \<Rightarrow> pydict \<Rightarrow> node" where
  "dbt_project_obj project_name snowplow_vars =
     CMap [(''name'', Dqs project_name),
           (''version'', plain_str ''1.0.0''),
           (''config-version'', Plain (JInt 2)),
           (''require-dbt-version'', make_inline_seq [Dqs ''>=1.6.0'', Dqs ''<2.0.0'']),
           (''profile'', plain_str ''your_profile_name_here''),
           (''dispatch'',
              BlockSeq [CMap [(''macro_namespace'', plain_str ''dbt''),
                              (''search_order'', make_inline_seq [Dqs ''snowplow_utils'', Dqs ''dbt''])]]),
           (''model-paths'', make_inline_seq [plain_str ''models'']),
           (''analysis-paths'', make_inline_seq [plain_str ''analysis'']),
           (''test-paths'', make_inline_seq [plain_str ''tests'']),
           (''macro-paths'', make_inline_seq [plain_str ''macros'']),
           (''docs-paths'', make_inline_seq [plain_str ''docs'']),
           (''asset-paths'', make_inline_seq [plain_str ''assets'']),
           (''target-path'', plain_str ''target''),
           (''clean-targets'',
              make_inline_seq [plain_str ''target'', plain_str ''dbt_modules'', plain_str ''dbt_packages'']),
           (''vars'', CMap [(''snowplow_unified'', CMap (map (\<lambda>(k, v). (k, Plain v)) snowplow_vars))]),
           (''models'', models_obj)]"

text \<open>
  The slug and the configuration tree that \<open>generate_project_for_customer\<close> computes from
  the customer record, without its effects on the file system.
\<close>

definition project_slug :: "pydict \<Rightarrow> py_error + string" where
  "project_slug customer_json =
     (let brand = dict_get customer_json ''brand_name'' (JStr ''unnamed_brand'')
      in slugify brand)"

definition build_config :: "pydict \<Rightarrow> py_error + node" where
  "build_config customer_json =
     (case project_slug customer_json of
        Inl e \<Rightarrow> Inl e
      | Inr slug \<Rightarrow>
          (let project_name = ''snowplow_unified_for_'' @ slug
           in case build_snowplow_vars customer_json of
                Inl e \<Rightarrow> Inl e
              | Inr snowplow_vars \<Rightarrow> Inr (dbt_project_obj project_name snowplow_vars)))"

text \<open>
  The name the specification gives: \<open>"snowplow_unified_for_" + slugify(brand_name or
  "unnamed_brand")\<close>, where \<open>x or y\<close> is \<open>y\<close> whenever \<open>x\<close> is absent, \<open>None\<close> or empty.
\<close>

definition spec_brand_or_default :: "pydict \<Rightarrow> json" where
  "spec_brand_or_default customer_json =
     (let brand = dict_get customer_json ''brand_name'' JNull
      in if truthy brand then brand else JStr ''unnamed_brand'')"

definition spec_project_name :: "pydict \<Rightarrow> py_error + string" where
  "spec_project_name customer_json =
     (case slugify (spec_brand_or_default customer_json) of
        Inl e \<Rightarrow> Inl e
      | Inr slug \<Rightarrow> Inr (''snowplow_unified_for_'' @ slug))"

text \<open>The tracking field \<open>k\<close> of the record is the string "yes" in some letter case.\<close>

definition is_yes :: "pydict \<Rightarrow> string \<Rightarrow> bool" where
  "is_yes customer_json k =
     (case map_of customer_json k of Some (JStr s) \<Rightarrow> py_lower s = ''yes'' | _ \<Rightarrow> False)"

text \<open>The field \<open>k\<close> of the record is absent or a string.\<close>

definition absent_or_str :: "pydict \<Rightarrow> string \<Rightarrow> bool" where
  "absent_or_str customer_json k =
     (case map_of customer_json k of None \<Rightarrow> True | Some (JStr s) \<Rightarrow> True | _ \<Rightarrow> False)"

text \<open>
  The \<open>name\<close> entry of the configuration tree and the entry \<open>k\<close> of the variables block,
  or the error that the builder raises.
\<close>

definition config_name :: "pydict \<Rightarrow> py_error + node option" where
  "config_name customer_json =
     (case build_config customer_json of
        Inl e \<Rightarrow> Inl e
      | Inr tree \<Rightarrow> Inr (node_get tree ''name''))"

definition config_var :: "pydict \<Rightarrow> string \<Rightarrow> py_error + json option" where
  "config_var customer_json k =
     (case build_snowplow_vars customer_json of
        Inl e \<Rightarrow> Inl e
      | Inr vars_block \<Rightarrow> Inr (map_of vars_block k))"

text \<open>The value is a dict, as \<open>isinstance(v, dict)\<close> tests it.\<close>

fun is_dict :: "json \<Rightarrow> bool" where
  "is_dict (JDict d) = True"
| "is_dict v = False"

section \<open>The output directory\<close>

text \<open>
  The file system below the output root: a directory maps the names of its entries to
  files (with their text) and directories. A project directory \<open>out_root / name\<close> is
  addressed by \<open>name\<close> in the listing of \<open>out_root\<close>; a root that does not exist yet has
  the empty listing, since every directory is made with \<open>parents=True\<close>. The process is
  taken to have the right to create, rename and remove entries below the output root, and
  nothing else changes them while it runs.

  The limits of the platform on the length of names and paths are the parameter \<open>fits\<close>:
  it tells of a path below the output root, given by its components, whether the system
  accepts it. A call on a path that is not accepted raises \<open>OSError\<close>.

  A call either returns the new listing, or raises: then the result is the error together
  with the listing as it is at that moment.
\<close>

datatype fnode = File string | Dir "string \<Rightarrow> fnode option"

type_synonym dir = "string \<Rightarrow> fnode option"

type_synonym fs_result = "(py_error \<times> dir) + dir"

definition raised_in :: "dir \<Rightarrow> py_error + dir \<Rightarrow> fs_result" where
  "raised_in d r = (case r of Inl e \<Rightarrow> Inl (e, d) | Inr d' \<Rightarrow> Inr d')"

text \<open>
  \<open>shutil.move(src, dst)\<close> for two entries of one directory: into \<open>dst\<close> when that is a
  directory (an error when it already has an entry of that name), else a rename; a
  directory cannot be renamed onto a file, and the copy that \<open>shutil\<close> falls back to fails
  because the destination exists. Where the system does not accept the destination,
  the tests of \<open>shutil\<close> for it are false, and the rename and the copy both raise.
  Nothing is changed when the call raises.
\<close>

definition shutil_move :: "(string list \<Rightarrow> bool) \<Rightarrow> dir \<Rightarrow> string \<Rightarrow> string \<Rightarrow> fs_result" where
  "shutil_move fits parent src dst =
     (case parent src of
        None \<Rightarrow> Inl (FileNotFoundError, parent)
      | Some moved \<Rightarrow>
          if dst = src then Inr parent
          else if \<not> fits [dst] then Inl (OSError, parent)
          else (case parent dst of
                  None \<Rightarrow> Inr ((parent(src := None))(dst \<mapsto> moved))
                | Some (Dir entries) \<Rightarrow>
                    if \<not> fits [dst, src] then Inl (OSError, parent)
                    else (case entries src of
                            Some x \<Rightarrow> Inl (ShutilError, parent)
                          | None \<Rightarrow>
                              Inr ((parent(src := None))(dst \<mapsto> Dir (entries(src \<mapsto> moved)))))
                | Some (File old) \<Rightarrow>
                    (case moved of
                       File text \<Rightarrow> Inr ((parent(src := None))(dst \<mapsto> moved))
                     | Dir entries \<Rightarrow> Inl (FileExistsError, parent))))"

definition shutil_rmtree :: "dir \<Rightarrow> string \<Rightarrow> fs_result" where
  "shutil_rmtree parent name =
     (case parent name of
        None \<Rightarrow> Inl (FileNotFoundError, parent)
      | Some (File text) \<Rightarrow> Inl (NotADirectoryError, parent)
      | Some (Dir entries) \<Rightarrow> Inr (parent(name := None)))"

text \<open>
  Within one directory: \<open>mkdir(exist_ok=True)\<close> of an entry, and writing the text of a
  file, as \<open>open("w")\<close> and \<open>write_text\<close> do.
\<close>

definition mkdir_exist_ok :: "dir \<Rightarrow> string \<Rightarrow> py_error + dir" where
  "mkdir_exist_ok parent name =
     (case parent name of
        None \<Rightarrow> Inr (parent(name \<mapsto> Dir Map.empty))
      | Some (Dir entries) \<Rightarrow> Inr parent
      | Some (File text) \<Rightarrow> Inl FileExistsError)"

definition write_text :: "dir \<Rightarrow> string \<Rightarrow> string \<Rightarrow> py_error + dir" where
  "write_text d fname content =
     (case d fname of
        Some (Dir entries) \<Rightarrow> Inl IsADirectoryError
      | _ \<Rightarrow> Inr (d(fname \<mapsto> File content)))"

text \<open>\<open>project_dir.mkdir(parents=True, exist_ok=True)\<close>.\<close>

definition mkdir_project_dir :: "(string list \<Rightarrow> bool) \<Rightarrow> dir \<Rightarrow> string \<Rightarrow> fs_result" where
  "mkdir_project_dir fits parent name =
     (if \<not> fits [name] then Inl (OSError, parent)
      else raised_in parent (mkdir_exist_ok parent name))"

text \<open>
  An operation \<open>f\<close> on the entry \<open>fname\<close> of the project directory \<open>name\<close>, which has to
  exist and be a directory.
\<close>

definition in_project_dir ::
  "(string list \<Rightarrow> bool) \<Rightarrow> dir \<Rightarrow> string \<Rightarrow> string \<Rightarrow> (dir \<Rightarrow> py_error + dir) \<Rightarrow> fs_result" where
  "in_project_dir fits parent name fname f =
     (if \<not> fits [name, fname] then Inl (OSError, parent)
      else (case parent name of
              None \<Rightarrow> Inl (FileNotFoundError, parent)
            | Some (File text) \<Rightarrow> Inl (NotADirectoryError, parent)
            | Some (Dir entries) \<Rightarrow>
                (case f entries of
                   Inl e \<Rightarrow> Inl (e, parent)
                 | Inr entries' \<Rightarrow> Inr (parent(name \<mapsto> Dir entries')))))"

text \<open>
  \<open>dump_yaml\<close> writes what the serializer of the library makes of the object; the
  serializer is the parameter \<open>emit\<close>. \<open>write_file\<close> first makes the parent directory.
\<close>

definition dump_yaml ::
  "(node \<Rightarrow> string) \<Rightarrow> node \<Rightarrow> (string list \<Rightarrow> bool) \<Rightarrow> dir \<Rightarrow> string \<Rightarrow> string \<Rightarrow> fs_result" where
  "dump_yaml emit obj fits parent name fname =
     in_project_dir fits parent name fname (\<lambda>d. write_text d fname (emit obj))"

definition write_file ::
  "(string list \<Rightarrow> bool) \<Rightarrow> dir \<Rightarrow> string \<Rightarrow> string \<Rightarrow> string \<Rightarrow> fs_result" where
  "write_file fits parent name fname content =
     (case mkdir_project_dir fits parent name of
        Inl raised \<Rightarrow> Inl raised
      | Inr parent' \<Rightarrow> in_project_dir fits parent' name fname (\<lambda>d. write_text d fname content))"

text \<open>
  \<open>handle_project_dir\<close>: \<open>answer\<close> is the line that \<open>input\<close> reads (\<open>None\<close> at the end of
  the input, where \<open>input\<close> raises), \<open>now\<close> the formatted time of the call.
  \<open>project_dir.exists()\<close> raises on a name that the system does not accept.
\<close>

definition handle_project_dir ::
  "(string list \<Rightarrow> bool) \<Rightarrow> string option \<Rightarrow> string \<Rightarrow> dir \<Rightarrow> string \<Rightarrow> fs_result" where
  "handle_project_dir fits answer now parent name =
     (if \<not> fits [name] then Inl (OSError, parent)
      else (case parent name of
              None \<Rightarrow> Inr parent
            | Some existing \<Rightarrow>
                (case answer of
                   None \<Rightarrow> Inl (EOFError, parent)
                 | Some line \<Rightarrow>
                     (let response = py_lower (py_strip line)
                      in if response \<noteq> ''y''
                         then (let new_name = name @ ''_old_'' @ now
                               in shutil_move fits parent name new_name)
                         else shutil_rmtree parent name))))"

text \<open>
  A platform for the examples: a name may have up to 255 bytes in UTF-8, as on the usual
  file systems of Linux, and no path comes near the limit on paths.
\<close>

definition utf8_length :: "string \<Rightarrow> nat" where
  "utf8_length s = sum_list (map (\<lambda>c. if (of_char c :: nat) < 128 then 1 else 2) s)"

definition name_max_255 :: "string list \<Rightarrow> bool" where
  "name_max_255 path = list_all (\<lambda>n. utf8_length n \<le> 255) path"

definition newline :: string where
  "newline = [CHR 0x0A]"

definition profiles_example :: string where
  "profiles_example =
     ''# Minimal example profile. Replace values with your warehouse config.'' @ newline @
     ''your_profile_name_here:'' @ newline @
     ''  target: dev'' @ newline @
     ''  outputs:'' @ newline @
     ''    dev:'' @ newline @
     ''      type: <your_warehouse>  # e.g., bigquery, snowflake, redshift, databricks'' @ newline @
     ''      threads: 1'' @ newline @
     ''      # other warehouse-specific connection properties here'' @ newline"

definition readme :: "string \<Rightarrow> string \<Rightarrow> string \<Rightarrow> string" where
  "readme project_name today brand =
     ''# '' @ project_name @ newline @ newline @
     ''Generated on '' @ today @ '' from brand: '' @ brand @ newline"

text \<open>
  \<open>generate_project_for_customer\<close> of \<open>generate_snowplow_dbt_projects.py\<close>, with the file
  system passed through. \<open>slugify(brand)\<close> raises before any effect unless \<open>brand\<close> is a
  string. \<open>today\<close> is \<open>date.today().isoformat()\<close>. The result is the new listing of the
  output root and the name of the project directory in it.
\<close>

definition generate_project_for_customer ::
  "(node \<Rightarrow> string) \<Rightarrow> (string list \<Rightarrow> bool) \<Rightarrow> string option \<Rightarrow> string \<Rightarrow> string \<Rightarrow>
   pydict \<Rightarrow> dir \<Rightarrow> string \<Rightarrow> string \<Rightarrow> (py_error \<times> dir) + (dir \<times> string)" where
  "generate_project_for_customer emit fits answer now today customer_json out_root package_git package_ref =
     (case dict_get customer_json ''brand_name'' (JStr ''unnamed_brand'') of
        JStr brand \<Rightarrow>
          (let slug = slugify_str brand;
               project_dir = ''dbt_'' @ slug
           in case handle_project_dir fits answer now out_root project_dir of
                Inl raised \<Rightarrow> Inl raised
              | Inr root1 \<Rightarrow>
           (case mkdir_project_dir fits root1 project_dir of
                Inl raised \<Rightarrow> Inl raised
              | Inr root2 \<Rightarrow>
           (let project_name = ''snowplow_unified_for_'' @ slug
            in case dump_yaml emit (packages_obj package_git package_ref) fits root2 project_dir ''packages.yml'' of
                Inl raised \<Rightarrow> Inl raised
              | Inr root3 \<Rightarrow>
           (case build_snowplow_vars customer_json of
                Inl e \<Rightarrow> Inl (e, root3)
              | Inr snowplow_vars \<Rightarrow>
           (case dump_yaml emit (dbt_project_obj project_name snowplow_vars) fits root3 project_dir ''dbt_project.yml'' of
                Inl raised \<Rightarrow> Inl raised
              | Inr root4 \<Rightarrow>
           (case write_file fits root4 project_dir ''profiles.example.yml'' profiles_example of
                Inl raised \<Rightarrow> Inl raised
              | Inr root5 \<Rightarrow>
           (case write_file fits root5 project_dir ''README.md'' (readme project_name today brand) of
                Inl raised \<Rightarrow> Inl raised
              | Inr root6 \<Rightarrow>
           (case in_project_dir fits root6 project_dir ''models'' (\<lambda>d. mkdir_exist_ok d ''models'') of
                Inl raised \<Rightarrow> Inl raised
              | Inr root7 \<Rightarrow> Inr (root7, project_dir)))))))))
      | other \<Rightarrow> Inl (AttributeError, out_root))"

section \<open>Properties\<close>

subsection \<open>Lower case, substitution and the slug on all code points\<close>

lemma of_char_less_256: "(of_char c :: nat) < 256"
proof -
  have "of_char (char_of (of_char c :: nat)) = (of_char c :: nat) mod 256"
    by (rule of_char_of)
  then have "(of_char c :: nat) = of_char c mod 256" by simp
  then show ?thesis by (metis mod_less_divisor zero_less_numeral)
qed

lemma lower_char_idem: "lower_char (lower_char c) = lower_char c"
  by (auto simp: lower_char_def Let_def)

lemma do_lower_fixed:
  "\<forall>c \<in> set s. fixed_by_lower T c \<Longrightarrow> do_lower T before s = s"
  by (induction s arbitrary: before) (auto simp: lower_ucs4_def fixed_by_lower_def)

lemma handle_capital_sigma_cases:
  "handle_capital_sigma T before after = SMALL_FINAL_SIGMA
   \<or> handle_capital_sigma T before after = SMALL_SIGMA"
  by (simp add: handle_capital_sigma_def Let_def)



lemma tables_ok_sigma:
  "tables_ok T \<Longrightarrow> fixed_by_lower T SMALL_SIGMA \<and> fixed_by_lower T SMALL_FINAL_SIGMA"
  by (simp add: tables_ok_def fixed_by_lower_def)

lemma tables_ok_hyphen:
  "tables_ok T \<Longrightarrow> fixed_by_lower T HYPHEN_MINUS \<and> \<not> unicode_isspace T HYPHEN_MINUS"
  by (simp add: tables_ok_def fixed_by_lower_def)

lemma tables_ok_stable:
  "tables_ok T \<Longrightarrow> c \<noteq> CAPITAL_SIGMA \<Longrightarrow> d \<in> set (to_lower_full T c) \<Longrightarrow> fixed_by_lower T d"
  unfolding tables_ok_def lower_stable_def fixed_by_lower_def by blast

lemma lower_ucs4_fixed:
  assumes "tables_ok T" and "d \<in> set (lower_ucs4 T before c after)"
  shows "fixed_by_lower T d"
proof (cases "c = CAPITAL_SIGMA")
  case True
  with assms(2) have "d = handle_capital_sigma T before after"
    by (simp add: lower_ucs4_def)
  with handle_capital_sigma_cases[of T before after]
  have "d = SMALL_FINAL_SIGMA \<or> d = SMALL_SIGMA" by simp
  then show ?thesis using tables_ok_sigma[OF assms(1)] by (elim disjE) simp_all
next
  case False
  with assms(2) have "d \<in> set (to_lower_full T c)" by (simp add: lower_ucs4_def)
  then show ?thesis by (rule tables_ok_stable[OF assms(1) False])
qed


lemma do_lower_chars_fixed:
  "tables_ok T \<Longrightarrow> d \<in> set (do_lower T before s) \<Longrightarrow> fixed_by_lower T d"
proof (induction s arbitrary: before)
  case Nil
  then show ?case by simp
next
  case (Cons c cs)
  from Cons.prems(2) have "d \<in> set (lower_ucs4 T before c cs) \<or> d \<in> set (do_lower T (c # before) cs)"
    by simp
  then show ?case
  proof
    assume "d \<in> set (lower_ucs4 T before c cs)"
    then show ?thesis by (rule lower_ucs4_fixed[OF Cons.prems(1)])
  next
    assume "d \<in> set (do_lower T (c # before) cs)"
    then show ?thesis by (rule Cons.IH[OF Cons.prems(1)])
  qed
qed

lemma set_re_sub_plus: "set (re_sub_plus P rep s) \<subseteq> {c \<in> set s. \<not> P c} \<union> set rep"
proof (induction P rep s rule: re_sub_plus.induct)
  case (1 P rep)
  then show ?case by simp
next
  case (2 P rep c cs)
  show ?case
  proof (cases "P c")
    case True
    have "set (dropWhile P cs) \<subseteq> set cs" by (auto dest: set_dropWhileD)
    with 2(1)[OF True] True show ?thesis by auto
  next
    case False
    with 2(2)[OF False] show ?thesis by auto
  qed
qed

lemma re_sub_plus_none: "\<forall>c \<in> set s. \<not> P c \<Longrightarrow> re_sub_plus P rep s = s"
  by (induction s) auto

lemma dropWhile_head: "dropWhile P cs = [] \<or> (\<exists>d ds. dropWhile P cs = d # ds \<and> \<not> P d)"
  by (metis hd_dropWhile list.exhaust list.sel(1))

lemma no_double_collapse:
  assumes "P d"
  shows "no_double P (re_sub_plus P [d] s)"
proof (induction P "[d]" s rule: re_sub_plus.induct)
  case (1 P)
  then show ?case by simp
next
  case (2 P c cs)
  show ?case
  proof (cases "P c")
    case True
    have step: "re_sub_plus P [d] (c # cs) = d # re_sub_plus P [d] (dropWhile P cs)"
      using True by simp
    from dropWhile_head[of P cs] show ?thesis
    proof
      assume e: "dropWhile P cs = []"
      show ?thesis unfolding step e by simp
    next
      assume "\<exists>x xs. dropWhile P cs = x # xs \<and> \<not> P x"
      then obtain x xs where x: "dropWhile P cs = x # xs" "\<not> P x" by blast
      have "no_double P (re_sub_plus P [d] (x # xs))"
        using 2(1)[OF True] x by simp
      then show ?thesis unfolding step using x by simp
    qed
  next
    case False
    with 2(2)[OF False] show ?thesis
      by (cases "re_sub_plus P [d] cs") auto
  qed
qed

lemma re_sub_plus_no_double:
  "no_double (\<lambda>c. c = d) s \<Longrightarrow> re_sub_plus (\<lambda>c. c = d) [d] s = s"
proof (induction "\<lambda>c. c = d" s rule: no_double.induct)
  case 1
  then show ?case by simp
next
  case (2 c)
  then show ?case by auto
next
  case (3 a b cs)
  then show ?case by auto
qed



lemma set_unicode_strip: "set (unicode_strip T s) \<subseteq> set s"
proof -
  have "set (dropWhile (unicode_isspace T) (rev (dropWhile (unicode_isspace T) s)))
        \<subseteq> set (rev (dropWhile (unicode_isspace T) s))"
    by (auto dest: set_dropWhileD)
  also have "\<dots> \<subseteq> set s" by (auto dest: set_dropWhileD)
  finally show ?thesis by (simp add: unicode_strip_def)
qed

lemma dropWhile_none: "\<forall>c \<in> set s. \<not> P c \<Longrightarrow> dropWhile P s = s"
  by (cases s) auto

lemma unicode_strip_none: "\<forall>c \<in> set s. \<not> unicode_isspace T c \<Longrightarrow> unicode_strip T s = s"
  by (simp add: unicode_strip_def dropWhile_none)

lemma slugify_unicode_chars:
  assumes "c \<in> set (slugify_unicode T x)" and "c \<noteq> HYPHEN_MINUS"
  shows "c \<in> set (unicode_lower T x) \<and> unicode_isword T c \<and> \<not> unicode_isspace T c"
proof -
  define a where "a = unicode_lower T x"
  define b where "b = filter (in_kept_class T) a"
  define d where "d = re_sub_plus (unicode_isspace T) [HYPHEN_MINUS] (unicode_strip T b)"
  have r: "slugify_unicode T x = re_sub_plus (\<lambda>c. c = HYPHEN_MINUS) [HYPHEN_MINUS] d"
    by (simp add: slugify_unicode_def a_def b_def d_def)
  from assms r set_re_sub_plus[of "\<lambda>c. c = HYPHEN_MINUS" "[HYPHEN_MINUS]" d]
  have "c \<in> set d" by auto
  with set_re_sub_plus[of "unicode_isspace T" "[HYPHEN_MINUS]" "unicode_strip T b"] assms(2)
  have "c \<in> set (unicode_strip T b)" and ns: "\<not> unicode_isspace T c"
    by (auto simp: d_def)
  with set_unicode_strip[of T b] have "c \<in> set b" by blast
  then have ca: "c \<in> set a" and "in_kept_class T c"
    by (auto simp: b_def)
  with ns assms(2) have "unicode_isword T c" by (simp add: in_kept_class_def)
  with ca ns show ?thesis by (simp add: a_def)
qed

lemma slugify_unicode_fixed:
  assumes "tables_ok T" and "c \<in> set (slugify_unicode T x)"
  shows "fixed_by_lower T c"
proof (cases "c = HYPHEN_MINUS")
  case True
  then show ?thesis using tables_ok_hyphen[OF assms(1)] by simp
next
  case False
  from slugify_unicode_chars[OF assms(2) False] have "c \<in> set (do_lower T [] x)"
    by (simp add: unicode_lower_def)
  then show ?thesis by (rule do_lower_chars_fixed[OF assms(1)])
qed

lemma slugify_unicode_lower:
  assumes "tables_ok T"
  shows "unicode_lower T (slugify_unicode T x) = slugify_unicode T x"
  unfolding unicode_lower_def
  by (rule do_lower_fixed) (auto intro: slugify_unicode_fixed[OF assms])

lemma slugify_unicode_no_space:
  assumes "tables_ok T" and "c \<in> set (slugify_unicode T x)"
  shows "\<not> unicode_isspace T c"
proof (cases "c = HYPHEN_MINUS")
  case True
  then show ?thesis using tables_ok_hyphen[OF assms(1)] by simp
next
  case False
  from slugify_unicode_chars[OF assms(2) False] show ?thesis by simp
qed

lemma slugify_unicode_word_or_dash:
  assumes "c \<in> set (slugify_unicode T x)"
  shows "unicode_isword T c \<or> c = HYPHEN_MINUS"
  using slugify_unicode_chars[OF assms] by (cases "c = HYPHEN_MINUS") simp_all

lemma slugify_unicode_no_double:
  "no_double (\<lambda>c. c = HYPHEN_MINUS) (slugify_unicode T x)"
  unfolding slugify_unicode_def Let_def
  by (rule no_double_collapse) (rule refl)

lemma slugify_unicode_idem:
  assumes "tables_ok T"
  shows "slugify_unicode T (slugify_unicode T x) = slugify_unicode T x"
proof -
  define r where "r = slugify_unicode T x"
  have 1: "unicode_lower T r = r"
    unfolding r_def by (rule slugify_unicode_lower[OF assms])
  have "\<forall>c \<in> set r. in_kept_class T c"
    using slugify_unicode_word_or_dash[of _ T x] by (auto simp: r_def in_kept_class_def)
  then have 2: "filter (in_kept_class T) r = r" by simp
  have ns: "\<forall>c \<in> set r. \<not> unicode_isspace T c"
    using slugify_unicode_no_space[OF assms] by (auto simp: r_def)
  have 3: "unicode_strip T r = r" by (rule unicode_strip_none[OF ns])
  have 4: "re_sub_plus (unicode_isspace T) [HYPHEN_MINUS] r = r"
    by (rule re_sub_plus_none[OF ns])
  have 5: "re_sub_plus (\<lambda>c. c = HYPHEN_MINUS) [HYPHEN_MINUS] r = r"
    by (rule re_sub_plus_no_double) (simp add: r_def slugify_unicode_no_double)
  have "slugify_unicode T r = r"
    unfolding slugify_unicode_def Let_def 1 2 3 4 5 by (rule refl)
  then show ?thesis by (simp add: r_def)
qed

lemma slugify_unicode_empty:
  "filter (in_kept_class T) (unicode_lower T x) = [] \<Longrightarrow> slugify_unicode T x = []"
  by (simp add: slugify_unicode_def unicode_strip_def)


subsection \<open>The two models of the normalizer agree\<close>

text \<open>
  On the strings of code points below 256 the second model computes what the first does,
  for every character database that agrees there with the tables of the first
  (\<open>slugify_unicode_latin1\<close>); \<open>latin1_tables\<close> is such a database and has the properties
  \<open>tables_ok\<close>.
\<close>

lemma of_char_not_sigma: "(of_char c :: nat) \<noteq> CAPITAL_SIGMA"
proof
  assume "(of_char c :: nat) = CAPITAL_SIGMA"
  moreover have "(of_char c :: nat) < 256" by (rule of_char_less_256)
  ultimately show False by arith
qed

lemma of_char_eq_iff: "((of_char c :: nat) = of_char d) = (c = d)"
  by (metis char_of_char)

lemma do_lower_latin1:
  "agrees_below_256 T \<Longrightarrow> do_lower T before (map of_char s) = map of_char (py_lower s)"
proof (induction s arbitrary: before)
  case Nil
  then show ?case by (simp add: py_lower_def)
next
  case (Cons c cs)
  have "lower_ucs4 T before (of_char c) (map of_char cs) = [of_char (lower_char c)]"
    using Cons.prems of_char_not_sigma[of c] by (simp add: lower_ucs4_def agrees_below_256_def)
  with Cons.IH[OF Cons.prems] show ?case by (simp add: py_lower_def)
qed

lemma in_kept_class_latin1:
  "agrees_below_256 T \<Longrightarrow>
   in_kept_class T (of_char c) = (is_word c \<or> is_space c \<or> is_dash c)"
proof -
  assume a: "agrees_below_256 T"
  have u: "((of_char c :: nat) = LOW_LINE) = (c = CHR ''_'')"
    using of_char_eq_iff[of c "CHR ''_''"] by simp
  have h: "((of_char c :: nat) = HYPHEN_MINUS) = (c = CHR ''-'')"
    using of_char_eq_iff[of c "CHR ''-''"] by simp
  from a show ?thesis
    by (simp add: in_kept_class_def unicode_isword_def is_word_def is_dash_def
                  agrees_below_256_def u h)
qed

lemma filter_latin1:
  "agrees_below_256 T \<Longrightarrow>
   filter (in_kept_class T) (map of_char s) = map of_char (re_sub_delete_others s)"
  by (simp add: filter_map comp_def in_kept_class_latin1 re_sub_delete_others_def)

lemma isspace_latin1: "agrees_below_256 T \<Longrightarrow> unicode_isspace T \<circ> of_char = is_space"
  by (auto simp: agrees_below_256_def)

lemma strip_latin1:
  "agrees_below_256 T \<Longrightarrow> unicode_strip T (map of_char s) = map of_char (py_strip s)"
proof -
  assume a: "agrees_below_256 T"
  have 1: "dropWhile (unicode_isspace T) (map of_char xs) = map of_char (dropWhile is_space xs)"
    for xs :: string
    by (simp add: dropWhile_map isspace_latin1[OF a])
  have "unicode_strip T (map of_char s)
        = rev (dropWhile (unicode_isspace T) (rev (map of_char (dropWhile is_space s))))"
    unfolding unicode_strip_def 1 by (rule refl)
  also have "\<dots> = rev (dropWhile (unicode_isspace T) (map of_char (rev (dropWhile is_space s))))"
    by (simp only: rev_map)
  also have "\<dots> = rev (map of_char (dropWhile is_space (rev (dropWhile is_space s))))"
    unfolding 1 by (rule refl)
  also have "\<dots> = map of_char (py_strip s)"
    by (simp only: rev_map py_strip_def)
  finally show ?thesis .
qed

lemma re_sub_plus_map:
  "re_sub_plus P (map f rep) (map f s) = map f (re_sub_plus (P \<circ> f) rep s)"
proof (induction "P \<circ> f" rep s rule: re_sub_plus.induct)
  case (1 rep)
  then show ?case by simp
next
  case (2 rep c cs)
  show ?case
  proof (cases "P (f c)")
    case True
    then have "re_sub_plus P (map f rep) (map f (c # cs))
               = map f rep @ re_sub_plus P (map f rep) (map f (dropWhile (P \<circ> f) cs))"
      by (simp add: dropWhile_map)
    with True 2(1) show ?thesis by simp
  next
    case False
    with 2(2) show ?thesis by simp
  qed
qed

lemma slugify_unicode_latin1:
  assumes "agrees_below_256 T"
  shows "slugify_unicode T (map of_char s) = map of_char (slugify_str s)"
proof -
  have d: "(\<lambda>c. c = HYPHEN_MINUS) \<circ> (of_char :: char \<Rightarrow> nat) = is_dash"
  proof
    fix c :: char
    show "((\<lambda>c. c = HYPHEN_MINUS) \<circ> (of_char :: char \<Rightarrow> nat)) c = is_dash c"
      using of_char_eq_iff[of c "CHR ''-''"] by (simp add: is_dash_def)
  qed
  have h: "[HYPHEN_MINUS] = map of_char ''-''" by simp
  show ?thesis
    unfolding slugify_unicode_def slugify_str_def Let_def unicode_lower_def
      do_lower_latin1[OF assms] filter_latin1[OF assms] strip_latin1[OF assms] h
      re_sub_plus_map isspace_latin1[OF assms] d
    by (rule refl)
qed

lemma latin1_tables_agree: "agrees_below_256 latin1_tables"
  by (simp add: agrees_below_256_def latin1_tables_def)

lemma latin1_lower_below:
  "c < 256 \<Longrightarrow> to_lower_full latin1_tables c = [of_char (lower_char (char_of c))]"
  by (simp add: latin1_tables_def)

lemma latin1_lower_above: "\<not> c < 256 \<Longrightarrow> to_lower_full latin1_tables c = [c]"
  by (simp add: latin1_tables_def)

lemma latin1_lower_stable: "lower_stable latin1_tables"
  unfolding lower_stable_def
proof (intro allI impI ballI)
  fix c d :: nat
  assume c: "c \<noteq> CAPITAL_SIGMA" and d: "d \<in> set (to_lower_full latin1_tables c)"
  show "d \<noteq> CAPITAL_SIGMA \<and> to_lower_full latin1_tables d = [d]"
  proof (cases "c < 256")
    case True
    with d have e: "d = of_char (lower_char (char_of c))" by (simp add: latin1_lower_below)
    then have lt: "d < 256" by (simp add: of_char_less_256)
    have "to_lower_full latin1_tables d = [of_char (lower_char (char_of d))]"
      by (rule latin1_lower_below[OF lt])
    also have "\<dots> = [d]" unfolding e by (simp add: lower_char_idem)
    finally have "to_lower_full latin1_tables d = [d]" .
    moreover from lt have "d \<noteq> CAPITAL_SIGMA" by arith
    ultimately show ?thesis by (rule conjI[rotated])
  next
    case False
    with d have "d = c" by (simp add: latin1_lower_above)
    with c False show ?thesis by (simp add: latin1_lower_above)
  qed
qed

lemma latin1_tables_ok: "tables_ok latin1_tables"
proof -
  have 1: "to_lower_full latin1_tables SMALL_SIGMA = [SMALL_SIGMA]"
    by (rule latin1_lower_above) simp
  have 2: "to_lower_full latin1_tables SMALL_FINAL_SIGMA = [SMALL_FINAL_SIGMA]"
    by (rule latin1_lower_above) simp
  have 3: "to_lower_full latin1_tables HYPHEN_MINUS = [HYPHEN_MINUS]"
    by (simp add: latin1_tables_def lower_char_def)
  have 4: "\<not> unicode_isspace latin1_tables HYPHEN_MINUS"
    by (simp add: latin1_tables_def is_space_def)
  from latin1_lower_stable 1 2 3 4 show ?thesis
    unfolding tables_ok_def by (intro conjI)
qed


subsection \<open>The shape of a slug\<close>

text \<open>
  C1 (as amended). Let the character database have the properties \<open>tables_ok\<close>. For
  every input string \<open>x\<close>, of any code points, \<open>slugify(x)\<close> is left unchanged by
  \<open>str.lower\<close>, contains only word characters (alphanumeric characters and the underscore)
  and dashes, contains no whitespace, and has no run of two or more consecutive dashes.
\<close>

theorem slugify_unicode_shape:
  assumes "tables_ok T"
  shows "unicode_lower T (slugify_unicode T x) = slugify_unicode T x
         \<and> list_all (\<lambda>c. unicode_isword T c \<or> c = HYPHEN_MINUS) (slugify_unicode T x)
         \<and> list_all (\<lambda>c. \<not> unicode_isspace T c) (slugify_unicode T x)
         \<and> no_double (\<lambda>c. c = HYPHEN_MINUS) (slugify_unicode T x)"
proof (intro conjI)
  show "unicode_lower T (slugify_unicode T x) = slugify_unicode T x"
    by (rule slugify_unicode_lower[OF assms])
  show "list_all (\<lambda>c. unicode_isword T c \<or> c = HYPHEN_MINUS) (slugify_unicode T x)"
    unfolding list_all_iff using slugify_unicode_word_or_dash[of _ T x] by blast
  show "list_all (\<lambda>c. \<not> unicode_isspace T c) (slugify_unicode T x)"
    unfolding list_all_iff using slugify_unicode_no_space[OF assms, of _ x] by blast
  show "no_double (\<lambda>c. c = HYPHEN_MINUS) (slugify_unicode T x)"
    by (rule slugify_unicode_no_double)
qed

theorem slugify_unicode_shape_witness:
  "tables_ok latin1_tables
   \<and> slugify_unicode latin1_tables (map of_char ''Acme  Co. - _X'') = map of_char ''acme-co-_x''
   \<and> unicode_lower latin1_tables (map of_char ''acme-co-_x'') = map of_char ''acme-co-_x''
   \<and> no_double (\<lambda>c. c = HYPHEN_MINUS) (map of_char ''acme-co-_x'')"
proof -
  have s: "slugify_str ''Acme  Co. - _X'' = ''acme-co-_x''" by code_simp
  have e: "slugify_unicode latin1_tables (map of_char ''Acme  Co. - _X'') = map of_char ''acme-co-_x''"
    unfolding slugify_unicode_latin1[OF latin1_tables_agree] s by (rule refl)
  from slugify_unicode_shape[OF latin1_tables_ok, of "map of_char ''Acme  Co. - _X''"]
  have "unicode_lower latin1_tables (map of_char ''acme-co-_x'') = map of_char ''acme-co-_x''
        \<and> no_double (\<lambda>c. c = HYPHEN_MINUS) (map of_char ''acme-co-_x'')"
    unfolding e by (elim conjE) (intro conjI)
  with latin1_tables_ok e show ?thesis by (intro conjI) (elim conjE, assumption)+
qed

text \<open>
  The claim as stated fails: from \<open>"-a_b-"\<close> the slug is \<open>"-a_b-"\<close>, whose third character
  (the underscore) is neither alphanumeric nor a dash, and which begins and ends with a
  dash.
\<close>

theorem slugify_shape_counterexample:
  "slugify (JStr ''-a_b-'') = Inr ''-a_b-''
   \<and> ''-a_b-'' ! 2 = CHR ''_''
   \<and> \<not> is_alnum (''-a_b-'' ! 2) \<and> \<not> is_dash (''-a_b-'' ! 2)
   \<and> is_dash (hd ''-a_b-'') \<and> is_dash (last ''-a_b-'')"
proof -
  have e: "slugify_str ''-a_b-'' = ''-a_b-''" by code_simp
  have "\<not> is_alnum (CHR ''_'')" by (simp add: is_alnum_def)
  then show ?thesis by (simp add: e is_dash_def)
qed

subsection \<open>Totality and idempotence of the slug normalizer\<close>

text \<open>
  C2. Let the character database have the properties \<open>tables_ok\<close>. \<open>slugify\<close> is
  defined on every string, of any code points: each of its steps is a total function.
  The empty string, and every string none of whose lower-cased characters is a word
  character, a whitespace or a dash (a string of punctuation only), give the empty slug.
  And \<open>slugify\<close> is idempotent: applied to its own result it returns that result.
\<close>

theorem slugify_unicode_total_idempotent:
  assumes "tables_ok T"
  shows "slugify_unicode T (slugify_unicode T x) = slugify_unicode T x
         \<and> slugify_unicode T [] = []
         \<and> (filter (in_kept_class T) (unicode_lower T x) = [] \<longrightarrow> slugify_unicode T x = [])"
proof (intro conjI impI)
  show "slugify_unicode T (slugify_unicode T x) = slugify_unicode T x"
    by (rule slugify_unicode_idem[OF assms])
  show "slugify_unicode T [] = []"
    by (rule slugify_unicode_empty) (simp add: unicode_lower_def)
  show "slugify_unicode T x = []" if "filter (in_kept_class T) (unicode_lower T x) = []"
    using that by (rule slugify_unicode_empty)
qed

theorem slugify_unicode_total_idempotent_witness:
  "tables_ok latin1_tables
   \<and> slugify_unicode latin1_tables (map of_char '' My  Brand--Name! '') = map of_char ''my-brand-name''
   \<and> slugify_unicode latin1_tables (map of_char ''my-brand-name'') = map of_char ''my-brand-name''"
proof -
  have s: "slugify_str '' My  Brand--Name! '' = ''my-brand-name''" by code_simp
  have e: "slugify_unicode latin1_tables (map of_char '' My  Brand--Name! '')
           = map of_char ''my-brand-name''"
    unfolding slugify_unicode_latin1[OF latin1_tables_agree] s by (rule refl)
  from slugify_unicode_total_idempotent[OF latin1_tables_ok, of "map of_char '' My  Brand--Name! ''"]
  have "slugify_unicode latin1_tables (map of_char ''my-brand-name'') = map of_char ''my-brand-name''"
    unfolding e by (rule conjunct1)
  with latin1_tables_ok e show ?thesis by (intro conjI)
qed

subsection \<open>The variables block and the configuration tree\<close>


lemma map_of_fold_update:
  "distinct (map fst other) \<Longrightarrow>
   map_of (fold (\<lambda>(k, v). AList.update k v) other d) = map_of d ++ map_of other"
proof (induction other arbitrary: d)
  case Nil
  then show ?case by simp
next
  case (Cons p other)
  obtain k v where p: "p = (k, v)" by (cases p)
  from Cons.prems p have k: "k \<notin> dom (map_of other)" and dist: "distinct (map fst other)"
    by (auto simp: dom_map_of_conv_image_fst)
  have "map_of (fold (\<lambda>(k, v). AList.update k v) (p # other) d)
        = map_of (AList.update k v d) ++ map_of other"
    using Cons.IH[OF dist] p by simp
  also have "\<dots> = (map_of d)(k \<mapsto> v) ++ map_of other"
    by (simp add: update_conv')
  also have "\<dots> = map_of d ++ (map_of other)(k \<mapsto> v)"
    using k by (simp add: map_add_upd_left)
  also have "\<dots> = map_of d ++ map_of (p # other)"
    using p by simp
  finally show ?case .
qed

lemma map_of_dict_update:
  "distinct (map fst other) \<Longrightarrow> map_of (dict_update d other) = map_of d ++ map_of other"
  by (simp add: dict_update_def map_of_fold_update)

lemma str_lower_Inr_iff: "(\<exists>s. str_lower v = Inr s) = (\<exists>t. v = JStr t)"
  by (cases v) auto

lemma str_lower_get_Inr:
  "(\<exists>s. str_lower (dict_get r k (JStr [])) = Inr s) = absent_or_str r k"
  by (auto simp: dict_get_def absent_or_str_def str_lower_Inr_iff split: option.splits json.splits)

lemma str_lower_get_yes:
  "str_lower (dict_get r k (JStr [])) = Inr s \<Longrightarrow> (s = ''yes'') = is_yes r k"
  by (auto simp: dict_get_def is_yes_def py_lower_def split: option.splits json.splits)

lemma build_snowplow_vars_returns:
  "(\<exists>vars. build_snowplow_vars r = Inr vars)
   = (absent_or_str r ''mobile_tracking'' \<and> absent_or_str r ''web_tracking'')"
proof -
  have "(\<exists>vars. build_snowplow_vars r = Inr vars)
        = ((\<exists>s. str_lower (dict_get r ''mobile_tracking'' (JStr [])) = Inr s)
           \<and> (\<exists>s. str_lower (dict_get r ''web_tracking'' (JStr [])) = Inr s))"
    by (auto simp: build_snowplow_vars_def Let_def split: sum.splits)
  then show ?thesis by (simp only: str_lower_get_Inr)
qed

lemma build_snowplow_vars_raises:
  "build_snowplow_vars r = Inl e \<Longrightarrow> e = AttributeError"
  by (auto simp: build_snowplow_vars_def Let_def split: sum.splits
           elim: str_lower.elims)

lemma vars_brand_name:
  "build_snowplow_vars r = Inr vars \<Longrightarrow>
   map_of vars ''snowplow__brand_name'' = Some (dict_get r ''brand_name'' JNull)"
  by (auto simp: build_snowplow_vars_def Let_def update_conv' split: sum.splits)

lemma vars_mobile:
  "build_snowplow_vars r = Inr vars \<Longrightarrow>
   map_of vars ''snowplow__enable_mobile_data'' = Some (JBool (is_yes r ''mobile_tracking''))"
  by (auto simp: build_snowplow_vars_def Let_def update_conv' split: sum.splits
           dest: str_lower_get_yes)

lemma vars_web:
  "build_snowplow_vars r = Inr vars \<Longrightarrow>
   map_of vars ''snowplow__enable_web_data'' = Some (JBool (is_yes r ''web_tracking''))"
  by (auto simp: build_snowplow_vars_def Let_def update_conv' split: sum.splits
           dest: str_lower_get_yes)

lemma vars_start_date:
  "build_snowplow_vars r = Inr vars \<Longrightarrow> truthy (dict_get r ''historical_data_since'' JNull) \<Longrightarrow>
   map_of vars ''snowplow__start_date'' = Some (dict_get r ''historical_data_since'' JNull)"
  by (auto simp: build_snowplow_vars_def Let_def update_conv' split: sum.splits)

lemma vars_app_ids:
  "build_snowplow_vars r = Inr vars \<Longrightarrow> truthy (dict_get r ''app_ids'' JNull) \<Longrightarrow>
   map_of vars ''snowplow__app_ids'' = Some (dict_get r ''app_ids'' JNull)"
  by (auto simp: build_snowplow_vars_def Let_def update_conv' split: sum.splits)

lemma vars_start_date_user:
  assumes "build_snowplow_vars r = Inr vars"
    and "\<not> truthy (dict_get r ''historical_data_since'' JNull)"
    and "map_of r ''user_set_variables'' = Some (JDict user_vars)"
    and "distinct (map fst user_vars)"
  shows "map_of vars ''snowplow__start_date'' = map_of user_vars ''snowplow__start_date''"
proof -
  have u: "dict_get r ''user_set_variables'' (JDict []) = JDict user_vars"
    using assms(3) by (simp add: dict_get_def)
  have m: "map_of (dict_update [] user_vars) = map_of user_vars"
    using assms(4) by (simp add: map_of_dict_update)
  from assms(1,2) show ?thesis
    by (auto simp: build_snowplow_vars_def Let_def u update_conv' m split: sum.splits)
qed


lemma project_slug_Inr:
  "(project_slug r = Inr slug)
   = (\<exists>b. dict_get r ''brand_name'' (JStr ''unnamed_brand'') = JStr b \<and> slug = slugify_str b)"
  by (cases "dict_get r ''brand_name'' (JStr ''unnamed_brand'')")
     (auto simp: project_slug_def Let_def)

lemma brand_get_str:
  "(\<exists>b. dict_get r ''brand_name'' (JStr ''unnamed_brand'') = JStr b) = absent_or_str r ''brand_name''"
  by (auto simp: dict_get_def absent_or_str_def split: option.splits json.splits)

lemma build_config_returns:
  "(\<exists>tree. build_config r = Inr tree)
   = (absent_or_str r ''brand_name'' \<and> absent_or_str r ''mobile_tracking''
      \<and> absent_or_str r ''web_tracking'')"
proof -
  have "(\<exists>tree. build_config r = Inr tree)
        = ((\<exists>slug. project_slug r = Inr slug) \<and> (\<exists>vars. build_snowplow_vars r = Inr vars))"
    by (auto simp: build_config_def Let_def split: sum.splits)
  also have "(\<exists>slug. project_slug r = Inr slug) = absent_or_str r ''brand_name''"
    by (simp add: project_slug_Inr brand_get_str)
  finally show ?thesis by (simp add: build_snowplow_vars_returns)
qed

lemma build_config_name:
  "build_config r = Inr tree \<Longrightarrow>
   \<exists>slug. project_slug r = Inr slug
          \<and> node_get tree ''name'' = Some (Dqs (''snowplow_unified_for_'' @ slug))"
  by (auto simp: build_config_def Let_def dbt_project_obj_def split: sum.splits)

lemma config_name_eq:
  assumes "dict_get r ''brand_name'' (JStr ''unnamed_brand'') = JStr b"
    and "absent_or_str r ''mobile_tracking''" and "absent_or_str r ''web_tracking''"
  shows "config_name r = Inr (Some (Dqs (''snowplow_unified_for_'' @ slugify_str b)))"
proof -
  from assms(1) have "absent_or_str r ''brand_name''"
    using brand_get_str[of r] by blast
  with assms(2,3) obtain tree where t: "build_config r = Inr tree"
    using build_config_returns[of r] by blast
  from build_config_name[OF t] assms(1) have
    "node_get tree ''name'' = Some (Dqs (''snowplow_unified_for_'' @ slugify_str b))"
    by (auto simp: project_slug_Inr)
  with t show ?thesis by (simp add: config_name_def)
qed

lemma spec_project_name_eq:
  assumes "dict_get r ''brand_name'' (JStr ''unnamed_brand'') = JStr b" and "b \<noteq> []"
  shows "spec_project_name r = Inr (''snowplow_unified_for_'' @ slugify_str b)"
proof -
  from assms have "spec_brand_or_default r = JStr b"
    by (auto simp: spec_brand_or_default_def dict_get_def Let_def split: option.splits)
  then show ?thesis by (simp add: spec_project_name_def)
qed

lemma dict_get_delete_other:
  "k \<noteq> k' \<Longrightarrow> dict_get (AList.delete k' r) k d = dict_get r k d"
  by (simp add: dict_get_def)

lemma dict_get_delete_same: "dict_get (AList.delete k r) k d = d"
  by (simp add: dict_get_def delete_conv')

lemma user_vars_ignored:
  assumes "\<not> is_dict (dict_get r ''user_set_variables'' (JDict []))"
  shows "build_snowplow_vars r = build_snowplow_vars (AList.delete ''user_set_variables'' r)"
  using assms
  by (cases "dict_get r ''user_set_variables'' (JDict [])")
     (auto simp: build_snowplow_vars_def dict_get_delete_other dict_get_delete_same
                 dict_update_def Let_def split: sum.splits)

subsection \<open>The empty record\<close>

text \<open>
  C3 (as amended). For the empty customer record the computed slug is \<open>"unnamed_brand"\<close>
  (with the underscore, which the normalizer keeps), the variables block holds the two
  feature flags, both false, and \<open>snowplow__brand_name\<close> with the value null, and it has
  no \<open>snowplow__start_date\<close> key.
\<close>

theorem empty_record:
  "project_slug [] = Inr ''unnamed_brand''
   \<and> build_snowplow_vars [] =
       Inr [(''snowplow__enable_mobile_data'', JBool False),
            (''snowplow__enable_web_data'', JBool False),
            (''snowplow__brand_name'', JNull)]
   \<and> map_of [(''snowplow__enable_mobile_data'', JBool False),
             (''snowplow__enable_web_data'', JBool False),
             (''snowplow__brand_name'', JNull)] ''snowplow__start_date'' = None"
proof -
  have "slugify_str ''unnamed_brand'' = ''unnamed_brand''" by code_simp
  then have "project_slug [] = Inr ''unnamed_brand''"
    by (simp add: project_slug_def dict_get_def)
  moreover have "build_snowplow_vars [] =
       Inr [(''snowplow__enable_mobile_data'', JBool False),
            (''snowplow__enable_web_data'', JBool False),
            (''snowplow__brand_name'', JNull)]"
    by (simp add: build_snowplow_vars_def dict_get_def dict_update_def py_lower_def)
  ultimately show ?thesis by simp
qed

text \<open>
  The claim as stated fails: the slug of the empty record is not \<open>"unnamed-brand"\<close>.
\<close>

theorem empty_record_counterexample:
  "project_slug [] = Inr ''unnamed_brand'' \<and> ''unnamed_brand'' \<noteq> ''unnamed-brand''"
proof -
  have "slugify_str ''unnamed_brand'' = ''unnamed_brand''" by code_simp
  then show ?thesis by (simp add: project_slug_def dict_get_def)
qed

subsection \<open>The project name\<close>

text \<open>
  C4 (as amended). Let \<open>b\<close> be the string \<open>customer_json.get("brand_name", "unnamed_brand")\<close>:
  the brand name when the key is present, the placeholder only when the key is absent.
  For every record in which the two tracking fields are absent or strings, the builder
  returns a tree whose \<open>name\<close> is the double-quoted string \<open>"snowplow_unified_for_"\<close>
  followed by the slug of \<open>b\<close>. Whenever \<open>b\<close> is not empty this is the name the
  specification gives; an empty brand name is not replaced by the placeholder.
\<close>

theorem config_name_from_brand:
  assumes "dict_get r ''brand_name'' (JStr ''unnamed_brand'') = JStr b"
    and "absent_or_str r ''mobile_tracking''" and "absent_or_str r ''web_tracking''"
  shows "config_name r = Inr (Some (Dqs (''snowplow_unified_for_'' @ slugify_str b)))
         \<and> (b \<noteq> [] \<longrightarrow> spec_project_name r = Inr (''snowplow_unified_for_'' @ slugify_str b))"
  using config_name_eq[OF assms] spec_project_name_eq[OF assms(1)] by simp

theorem config_name_from_brand_witness:
  "config_name [(''brand_name'', JStr ''Acme Co.''), (''web_tracking'', JStr ''Yes''),
                (''historical_data_since'', JStr ''2023-01-01'')]
     = Inr (Some (Dqs ''snowplow_unified_for_acme-co''))
   \<and> spec_project_name [(''brand_name'', JStr ''Acme Co.''), (''web_tracking'', JStr ''Yes''),
                (''historical_data_since'', JStr ''2023-01-01'')]
     = Inr ''snowplow_unified_for_acme-co''"
proof -
  let ?r = "[(''brand_name'', JStr ''Acme Co.''), (''web_tracking'', JStr ''Yes''),
             (''historical_data_since'', JStr ''2023-01-01'')]"
  have b: "dict_get ?r ''brand_name'' (JStr ''unnamed_brand'') = JStr ''Acme Co.''"
    by (simp add: dict_get_def)
  have m: "absent_or_str ?r ''mobile_tracking''" by (simp add: absent_or_str_def)
  have w: "absent_or_str ?r ''web_tracking''" by (simp add: absent_or_str_def)
  have e: "slugify_str ''Acme Co.'' = ''acme-co''" by code_simp
  from config_name_from_brand[OF b m w] show ?thesis unfolding e by simp
qed

text \<open>
  The claim as stated fails: for the brand name \<open>""\<close> the name in the tree is the bare
  prefix, where the claim gives \<open>"snowplow_unified_for_unnamed_brand"\<close>; for the brand
  name null the builder raises, where the claim gives the same name.
\<close>

theorem config_name_counterexample:
  "config_name [(''brand_name'', JStr [])] = Inr (Some (Dqs ''snowplow_unified_for_''))
   \<and> spec_project_name [(''brand_name'', JStr [])] = Inr ''snowplow_unified_for_unnamed_brand''
   \<and> config_name [(''brand_name'', JNull)] = Inl AttributeError
   \<and> spec_project_name [(''brand_name'', JNull)] = Inr ''snowplow_unified_for_unnamed_brand''"
proof -
  have e: "slugify_str [] = []" by code_simp
  have u: "slugify_str ''unnamed_brand'' = ''unnamed_brand''" by code_simp
  have v: "build_snowplow_vars [(''brand_name'', JStr [])] =
       Inr [(''snowplow__enable_mobile_data'', JBool False),
            (''snowplow__enable_web_data'', JBool False),
            (''snowplow__brand_name'', JStr [])]"
    by (simp add: build_snowplow_vars_def dict_get_def dict_update_def py_lower_def)
  have 1: "config_name [(''brand_name'', JStr [])] = Inr (Some (Dqs ''snowplow_unified_for_''))"
    by (simp add: config_name_def build_config_def project_slug_def dict_get_def e v
                  dbt_project_obj_def)
  have 2: "spec_project_name [(''brand_name'', JStr [])] = Inr ''snowplow_unified_for_unnamed_brand''"
    by (simp add: spec_project_name_def spec_brand_or_default_def dict_get_def u)
  have 3: "config_name [(''brand_name'', JNull)] = Inl AttributeError"
    by (simp add: config_name_def build_config_def project_slug_def dict_get_def)
  have 4: "spec_project_name [(''brand_name'', JNull)] = Inr ''snowplow_unified_for_unnamed_brand''"
    by (simp add: spec_project_name_def spec_brand_or_default_def dict_get_def u)
  from 1 2 3 4 show ?thesis by simp
qed

subsection \<open>The feature flags\<close>

text \<open>
  C5 (as amended). For every customer record whose \<open>mobile_tracking\<close> and \<open>web_tracking\<close>
  are each absent or a string, the builder returns a variables block in which
  \<open>snowplow__enable_mobile_data\<close> is false whenever \<open>mobile_tracking\<close> is absent or is not
  "yes" in some letter case, and \<open>snowplow__enable_web_data\<close> is false whenever
  \<open>web_tracking\<close> is absent or not such a string.
\<close>

theorem tracking_flags_unless_yes:
  assumes "absent_or_str r ''mobile_tracking''" and "absent_or_str r ''web_tracking''"
  shows "(\<not> is_yes r ''mobile_tracking'' \<longrightarrow>
            config_var r ''snowplow__enable_mobile_data'' = Inr (Some (JBool False)))
         \<and> (\<not> is_yes r ''web_tracking'' \<longrightarrow>
            config_var r ''snowplow__enable_web_data'' = Inr (Some (JBool False)))"
proof -
  from assms obtain vars where v: "build_snowplow_vars r = Inr vars"
    using build_snowplow_vars_returns[of r] by blast
  have m: "config_var r ''snowplow__enable_mobile_data'' = Inr (Some (JBool (is_yes r ''mobile_tracking'')))"
    using vars_mobile[OF v] v by (simp add: config_var_def)
  have w: "config_var r ''snowplow__enable_web_data'' = Inr (Some (JBool (is_yes r ''web_tracking'')))"
    using vars_web[OF v] v by (simp add: config_var_def)
  show ?thesis unfolding m w by simp
qed

theorem tracking_flags_unless_yes_witness:
  "absent_or_str [(''mobile_tracking'', JStr ''No''), (''web_tracking'', JStr ''yEs'')] ''mobile_tracking''
   \<and> absent_or_str [(''mobile_tracking'', JStr ''No''), (''web_tracking'', JStr ''yEs'')] ''web_tracking''
   \<and> \<not> is_yes [(''mobile_tracking'', JStr ''No''), (''web_tracking'', JStr ''yEs'')] ''mobile_tracking''
   \<and> config_var [(''mobile_tracking'', JStr ''No''), (''web_tracking'', JStr ''yEs'')]
         ''snowplow__enable_mobile_data'' = Inr (Some (JBool False))"
proof -
  let ?r = "[(''mobile_tracking'', JStr ''No''), (''web_tracking'', JStr ''yEs'')]"
  have l1: "py_lower ''No'' = ''no''" by code_simp
  have m: "absent_or_str ?r ''mobile_tracking''" by (simp add: absent_or_str_def)
  have w: "absent_or_str ?r ''web_tracking''" by (simp add: absent_or_str_def)
  have n: "\<not> is_yes ?r ''mobile_tracking''" by (simp add: is_yes_def l1)
  from tracking_flags_unless_yes[OF m w] have
    "\<not> is_yes ?r ''mobile_tracking'' \<longrightarrow>
       config_var ?r ''snowplow__enable_mobile_data'' = Inr (Some (JBool False))"
    by (rule conjunct1)
  then have "config_var ?r ''snowplow__enable_mobile_data'' = Inr (Some (JBool False))"
    using n by (rule mp)
  with m w n show ?thesis by (intro conjI)
qed

text \<open>
  The claim as stated fails: null is not "yes", yet with \<open>mobile_tracking\<close> null the
  builder raises and there is no flag; and with \<open>mobile_tracking\<close> absent it raises all
  the same when \<open>web_tracking\<close> is a number.
\<close>

theorem tracking_flags_counterexample:
  "\<not> is_yes [(''mobile_tracking'', JNull)] ''mobile_tracking''
   \<and> config_var [(''mobile_tracking'', JNull)] ''snowplow__enable_mobile_data'' = Inl AttributeError
   \<and> map_of [(''web_tracking'', JInt 1)] ''mobile_tracking'' = None
   \<and> config_var [(''web_tracking'', JInt 1)] ''snowplow__enable_mobile_data'' = Inl AttributeError"
  by (simp add: is_yes_def config_var_def build_snowplow_vars_def dict_get_def dict_update_def
                py_lower_def)

subsection \<open>Derived keys override the user's variables\<close>

text \<open>
  C6. In every variables block that the builder returns, each derived key has the value
  derived from the record, whatever \<open>user_set_variables\<close> holds under the same key: the
  brand name and the two flags always, the start date and the application ids whenever
  their source field is present and not empty. In particular, with \<open>user_set_variables =
  {"snowplow__brand_name": "X"}\<close> and \<open>brand_name = "Y"\<close> the entry
  \<open>snowplow__brand_name\<close> is \<open>"Y"\<close>.
\<close>

theorem derived_keys_override:
  "(build_snowplow_vars r = Inr vars \<longrightarrow>
      map_of vars ''snowplow__brand_name'' = Some (dict_get r ''brand_name'' JNull)
      \<and> map_of vars ''snowplow__enable_mobile_data'' = Some (JBool (is_yes r ''mobile_tracking''))
      \<and> map_of vars ''snowplow__enable_web_data'' = Some (JBool (is_yes r ''web_tracking''))
      \<and> (truthy (dict_get r ''historical_data_since'' JNull) \<longrightarrow>
           map_of vars ''snowplow__start_date'' = Some (dict_get r ''historical_data_since'' JNull))
      \<and> (truthy (dict_get r ''app_ids'' JNull) \<longrightarrow>
           map_of vars ''snowplow__app_ids'' = Some (dict_get r ''app_ids'' JNull)))
   \<and> config_var [(''user_set_variables'', JDict [(''snowplow__brand_name'', JStr ''X'')]),
                 (''brand_name'', JStr ''Y'')] ''snowplow__brand_name'' = Inr (Some (JStr ''Y''))"
proof -
  have "config_var [(''user_set_variables'', JDict [(''snowplow__brand_name'', JStr ''X'')]),
                 (''brand_name'', JStr ''Y'')] ''snowplow__brand_name'' = Inr (Some (JStr ''Y''))"
    by (simp add: config_var_def build_snowplow_vars_def dict_get_def dict_update_def py_lower_def)
  then show ?thesis
    using vars_brand_name[of r vars] vars_mobile[of r vars] vars_web[of r vars]
      vars_start_date[of r vars] vars_app_ids[of r vars]
    by blast
qed

theorem derived_keys_override_witness:
  "build_snowplow_vars
     [(''user_set_variables'',
         JDict [(''snowplow__start_date'', JStr ''1999-01-01''),
                (''snowplow__enable_web_data'', JBool True),
                (''custom'', JInt 7)]),
      (''historical_data_since'', JStr ''2023-01-01'')]
   = Inr [(''snowplow__start_date'', JStr ''2023-01-01''),
          (''snowplow__enable_web_data'', JBool False),
          (''custom'', JInt 7),
          (''snowplow__enable_mobile_data'', JBool False),
          (''snowplow__brand_name'', JNull)]
   \<and> map_of [(''snowplow__start_date'', JStr ''2023-01-01''),
          (''snowplow__enable_web_data'', JBool False),
          (''custom'', JInt 7),
          (''snowplow__enable_mobile_data'', JBool False),
          (''snowplow__brand_name'', JNull)] ''snowplow__start_date'' = Some (JStr ''2023-01-01'')"
proof -
  let ?r = "[(''user_set_variables'',
         JDict [(''snowplow__start_date'', JStr ''1999-01-01''),
                (''snowplow__enable_web_data'', JBool True),
                (''custom'', JInt 7)]),
      (''historical_data_since'', JStr ''2023-01-01'')]"
  let ?v = "[(''snowplow__start_date'', JStr ''2023-01-01''),
          (''snowplow__enable_web_data'', JBool False),
          (''custom'', JInt 7),
          (''snowplow__enable_mobile_data'', JBool False),
          (''snowplow__brand_name'', JNull)]"
  have b: "build_snowplow_vars ?r = Inr ?v"
    by (simp add: build_snowplow_vars_def dict_get_def dict_update_def py_lower_def)
  have t: "truthy (dict_get ?r ''historical_data_since'' JNull)"
    by (simp add: dict_get_def)
  have g: "dict_get ?r ''historical_data_since'' JNull = JStr ''2023-01-01''"
    by (simp add: dict_get_def)
  from derived_keys_override[of ?r ?v] b t
  have "map_of ?v ''snowplow__start_date'' = Some (dict_get ?r ''historical_data_since'' JNull)"
    by blast
  with b g show ?thesis by simp
qed

subsection \<open>When the builder returns\<close>

text \<open>
  C7 (as amended). For every customer record whose \<open>mobile_tracking\<close> and
  \<open>web_tracking\<close> are each absent or a string, \<open>build_snowplow_vars\<close> raises no error and
  returns a block in which an absent tracking field gives the flag false, an absent
  \<open>brand_name\<close> gives null, and a \<open>user_set_variables\<close> that is not a mapping is
  treated as if it were absent. When \<open>brand_name\<close> too is absent or a string, the whole
  configuration tree is returned.
\<close>

theorem builder_returns:
  assumes "absent_or_str r ''mobile_tracking''" and "absent_or_str r ''web_tracking''"
  shows "\<exists>vars. build_snowplow_vars r = Inr vars
           \<and> (map_of r ''mobile_tracking'' = None \<longrightarrow>
                map_of vars ''snowplow__enable_mobile_data'' = Some (JBool False))
           \<and> (map_of r ''web_tracking'' = None \<longrightarrow>
                map_of vars ''snowplow__enable_web_data'' = Some (JBool False))
           \<and> (map_of r ''brand_name'' = None \<longrightarrow>
                map_of vars ''snowplow__brand_name'' = Some JNull)
           \<and> (\<not> is_dict (dict_get r ''user_set_variables'' (JDict [])) \<longrightarrow>
                build_snowplow_vars (AList.delete ''user_set_variables'' r) = Inr vars)
           \<and> (absent_or_str r ''brand_name'' \<longrightarrow> (\<exists>tree. build_config r = Inr tree))"
proof -
  from assms obtain vars where v: "build_snowplow_vars r = Inr vars"
    using build_snowplow_vars_returns[of r] by blast
  have 1: "map_of r ''mobile_tracking'' = None \<longrightarrow>
           map_of vars ''snowplow__enable_mobile_data'' = Some (JBool False)"
    using vars_mobile[OF v] by (simp add: is_yes_def)
  have 2: "map_of r ''web_tracking'' = None \<longrightarrow>
           map_of vars ''snowplow__enable_web_data'' = Some (JBool False)"
    using vars_web[OF v] by (simp add: is_yes_def)
  have 3: "map_of r ''brand_name'' = None \<longrightarrow>
           map_of vars ''snowplow__brand_name'' = Some JNull"
    using vars_brand_name[OF v] by (simp add: dict_get_def)
  have 4: "\<not> is_dict (dict_get r ''user_set_variables'' (JDict [])) \<longrightarrow>
           build_snowplow_vars (AList.delete ''user_set_variables'' r) = Inr vars"
    using user_vars_ignored[of r] v by simp
  have 5: "absent_or_str r ''brand_name'' \<longrightarrow> (\<exists>tree. build_config r = Inr tree)"
    using build_config_returns[of r] assms by simp
  show ?thesis
    by (intro exI[of _ vars] conjI) (fact v, fact 1, fact 2, fact 3, fact 4, fact 5)
qed

theorem builder_returns_witness:
  "absent_or_str [(''user_set_variables'', JList [JInt 1]), (''app_ids'', JInt 0)] ''mobile_tracking''
   \<and> absent_or_str [(''user_set_variables'', JList [JInt 1]), (''app_ids'', JInt 0)] ''web_tracking''
   \<and> build_snowplow_vars [(''user_set_variables'', JList [JInt 1]), (''app_ids'', JInt 0)]
       = Inr [(''snowplow__enable_mobile_data'', JBool False),
              (''snowplow__enable_web_data'', JBool False),
              (''snowplow__brand_name'', JNull)]"
proof -
  let ?r = "[(''user_set_variables'', JList [JInt 1]), (''app_ids'', JInt 0)]"
  have m: "absent_or_str ?r ''mobile_tracking''" by (simp add: absent_or_str_def)
  have w: "absent_or_str ?r ''web_tracking''" by (simp add: absent_or_str_def)
  have n: "\<not> is_dict (dict_get ?r ''user_set_variables'' (JDict []))"
    by (simp add: dict_get_def)
  have d: "build_snowplow_vars (AList.delete ''user_set_variables'' ?r)
           = Inr [(''snowplow__enable_mobile_data'', JBool False),
              (''snowplow__enable_web_data'', JBool False),
              (''snowplow__brand_name'', JNull)]"
    by (simp add: build_snowplow_vars_def dict_get_def dict_update_def py_lower_def)
  have "build_snowplow_vars ?r = Inr [(''snowplow__enable_mobile_data'', JBool False),
              (''snowplow__enable_web_data'', JBool False),
              (''snowplow__brand_name'', JNull)]"
    using builder_returns[OF m w] n d by (elim exE conjE) simp
  with m w show ?thesis by (intro conjI)
qed

text \<open>
  The claim as stated fails: with \<open>mobile_tracking\<close> null, or \<open>web_tracking\<close> the
  boolean true, \<open>.lower()\<close> raises \<open>AttributeError\<close>; so does the slug of a null brand
  name.
\<close>

theorem builder_returns_counterexample:
  "build_snowplow_vars [(''mobile_tracking'', JNull)] = Inl AttributeError
   \<and> build_snowplow_vars [(''web_tracking'', JBool True)] = Inl AttributeError
   \<and> build_config [(''brand_name'', JNull)] = Inl AttributeError"
  by (simp add: build_snowplow_vars_def build_config_def project_slug_def dict_get_def
                dict_update_def py_lower_def)

subsection \<open>A start date set by the user\<close>

text \<open>
  C10. Let \<open>historical_data_since\<close> be absent or empty, and let \<open>user_set_variables\<close> be
  a mapping (each key once, as in every dict) that gives \<open>snowplow__start_date\<close> the value
  \<open>v\<close>. Then every variables block that the builder returns has \<open>snowplow__start_date\<close>
  with the value \<open>v\<close>, and the builder does return one when the tracking fields are
  absent or strings.
\<close>

theorem user_start_date_kept:
  assumes "\<not> truthy (dict_get r ''historical_data_since'' JNull)"
    and "map_of r ''user_set_variables'' = Some (JDict user_vars)"
    and "distinct (map fst user_vars)"
    and "map_of user_vars ''snowplow__start_date'' = Some v"
  shows "(build_snowplow_vars r = Inr vars \<longrightarrow> map_of vars ''snowplow__start_date'' = Some v)
         \<and> (absent_or_str r ''mobile_tracking'' \<and> absent_or_str r ''web_tracking'' \<longrightarrow>
              config_var r ''snowplow__start_date'' = Inr (Some v))"
proof -
  have a: "map_of vs ''snowplow__start_date'' = Some v" if "build_snowplow_vars r = Inr vs" for vs
    using vars_start_date_user[OF that assms(1,2,3)] assms(4) by simp
  have "config_var r ''snowplow__start_date'' = Inr (Some v)"
    if "absent_or_str r ''mobile_tracking'' \<and> absent_or_str r ''web_tracking''"
  proof -
    from that obtain vs where vs: "build_snowplow_vars r = Inr vs"
      using build_snowplow_vars_returns[of r] by blast
    with a[OF vs] show ?thesis by (simp add: config_var_def)
  qed
  then show ?thesis using a[of vars] by (intro conjI impI)
qed

theorem user_start_date_kept_witness:
  "config_var [(''historical_data_since'', JStr []),
               (''user_set_variables'', JDict [(''snowplow__start_date'', JStr ''2020-05-05'')])]
     ''snowplow__start_date'' = Inr (Some (JStr ''2020-05-05''))"
proof -
  let ?r = "[(''historical_data_since'', JStr []),
             (''user_set_variables'', JDict [(''snowplow__start_date'', JStr ''2020-05-05'')])]"
  have 1: "\<not> truthy (dict_get ?r ''historical_data_since'' JNull)" by (simp add: dict_get_def)
  have 2: "map_of ?r ''user_set_variables''
           = Some (JDict [(''snowplow__start_date'', JStr ''2020-05-05'')])" by simp
  have 3: "distinct (map fst [(''snowplow__start_date'', JStr ''2020-05-05'')])" by simp
  have 4: "map_of [(''snowplow__start_date'', JStr ''2020-05-05'')] ''snowplow__start_date''
           = Some (JStr ''2020-05-05'')" by simp
  have 5: "absent_or_str ?r ''mobile_tracking'' \<and> absent_or_str ?r ''web_tracking''"
    by (simp add: absent_or_str_def)
  from user_start_date_kept[OF 1 2 3 4] have
    "absent_or_str ?r ''mobile_tracking'' \<and> absent_or_str ?r ''web_tracking'' \<longrightarrow>
       config_var ?r ''snowplow__start_date'' = Inr (Some (JStr ''2020-05-05''))"
    by (rule conjunct2)
  then show ?thesis using 5 by (rule mp)
qed

subsection \<open>An output directory that already exists\<close>

lemma in_project_dir_Dir:
  "fits [name, fname] \<Longrightarrow> parent name = Some (Dir d) \<Longrightarrow> f d = Inr d' \<Longrightarrow>
   in_project_dir fits parent name fname f = Inr (parent(name \<mapsto> Dir d'))"
  by (simp add: in_project_dir_def)

lemma write_text_fresh: "d fname = None \<Longrightarrow> write_text d fname content = Inr (d(fname \<mapsto> File content))"
  by (simp add: write_text_def)

lemma dump_yaml_fresh:
  "fits [name, fname] \<Longrightarrow> parent name = Some (Dir d) \<Longrightarrow> d fname = None \<Longrightarrow>
   dump_yaml emit obj fits parent name fname
   = Inr (parent(name \<mapsto> Dir (d(fname \<mapsto> File (emit obj)))))"
  by (simp add: dump_yaml_def in_project_dir_Dir write_text_fresh)

lemma write_file_fresh:
  "fits [name] \<Longrightarrow> fits [name, fname] \<Longrightarrow> parent name = Some (Dir d) \<Longrightarrow> d fname = None \<Longrightarrow>
   write_file fits parent name fname content
   = Inr (parent(name \<mapsto> Dir (d(fname \<mapsto> File content))))"
  by (simp add: write_file_def mkdir_project_dir_def raised_in_def mkdir_exist_ok_def
                in_project_dir_Dir write_text_fresh)

lemma mkdir_project_dir_fresh:
  "fits [name] \<Longrightarrow> parent name = None \<Longrightarrow>
   mkdir_project_dir fits parent name = Inr (parent(name \<mapsto> Dir Map.empty))"
  by (simp add: mkdir_project_dir_def raised_in_def mkdir_exist_ok_def)

lemma handle_project_dir_rename:
  assumes "fits [name]" and "parent name = Some existing" and "answer = Some line"
    and "py_lower (py_strip line) \<noteq> ''y''"
    and "fits [name @ ''_old_'' @ now]" and "parent (name @ ''_old_'' @ now) = None"
  shows "handle_project_dir fits answer now parent name
         = Inr ((parent(name := None))(name @ ''_old_'' @ now \<mapsto> existing))"
  using assms by (simp add: handle_project_dir_def shutil_move_def Let_def)

lemma shutil_move_keeps_dir:
  assumes "parent src = Some (Dir d)" and "dst \<noteq> src"
  shows "(\<exists>e. shutil_move fits parent src dst = Inl (e, parent))
         \<or> (parent dst = None
             \<and> shutil_move fits parent src dst = Inr ((parent(src := None))(dst \<mapsto> Dir d)))
         \<or> (\<exists>entries. parent dst = Some (Dir entries) \<and> entries src = None
               \<and> shutil_move fits parent src dst
                   = Inr ((parent(src := None))(dst \<mapsto> Dir (entries(src \<mapsto> Dir d)))))"
proof (cases "fits [dst]")
  case False
  with assms show ?thesis by (simp add: shutil_move_def)
next
  case True
  show ?thesis
  proof (cases "parent dst")
    case None
    with assms True show ?thesis by (simp add: shutil_move_def)
  next
    case (Some target)
    show ?thesis
    proof (cases target)
      case (File old)
      with Some assms True show ?thesis by (simp add: shutil_move_def)
    next
      case (Dir entries)
      show ?thesis
      proof (cases "fits [dst, src]")
        case False
        with Dir Some assms True show ?thesis by (simp add: shutil_move_def)
      next
        case fits2: True
        show ?thesis
        proof (cases "entries src")
          case None
          with fits2 Dir Some assms True show ?thesis by (simp add: shutil_move_def)
        next
          case (Some x)
          with fits2 Dir \<open>parent dst = Some target\<close> assms True show ?thesis
            by (simp add: shutil_move_def)
        qed
      qed
    qed
  qed
qed

lemma handle_project_dir_keeps_dir:
  assumes "out_root name = Some (Dir d)" and "answer = Some line"
    and "py_lower (py_strip line) \<noteq> ''y''"
  shows "(\<exists>e. handle_project_dir fits answer now out_root name = Inl (e, out_root))
         \<or> (out_root (name @ ''_old_'' @ now) = None
             \<and> handle_project_dir fits answer now out_root name
                 = Inr ((out_root(name := None))(name @ ''_old_'' @ now \<mapsto> Dir d)))
         \<or> (\<exists>entries. out_root (name @ ''_old_'' @ now) = Some (Dir entries) \<and> entries name = None
               \<and> handle_project_dir fits answer now out_root name
                   = Inr ((out_root(name := None))
                            (name @ ''_old_'' @ now \<mapsto> Dir (entries(name \<mapsto> Dir d)))))"
proof (cases "fits [name]")
  case False
  then show ?thesis by (simp add: handle_project_dir_def)
next
  case True
  have ne: "name @ ''_old_'' @ now \<noteq> name" by simp
  have "handle_project_dir fits answer now out_root name
        = shutil_move fits out_root name (name @ ''_old_'' @ now)"
    using True assms by (simp add: handle_project_dir_def Let_def)
  with shutil_move_keeps_dir[of out_root name d "name @ ''_old_'' @ now" fits, OF assms(1) ne]
  show ?thesis by simp
qed

lemma handle_project_dir_raises:
  "handle_project_dir fits answer now out_root name = Inl (e, fs) \<Longrightarrow> fs = out_root"
  by (auto simp: handle_project_dir_def shutil_move_def shutil_rmtree_def Let_def
           split: if_splits option.splits fnode.splits)

lemma generate_handle_error:
  assumes "dict_get r ''brand_name'' (JStr ''unnamed_brand'') = JStr b"
    and "handle_project_dir fits answer now out_root (''dbt_'' @ slugify_str b) = Inl raised"
  shows "generate_project_for_customer emit fits answer now today r out_root package_git package_ref
         = Inl raised"
  unfolding generate_project_for_customer_def assms(1) json.case Let_def assms(2) sum.case
  by (rule refl)

lemma generate_after_handle:
  assumes brand: "dict_get r ''brand_name'' (JStr ''unnamed_brand'') = JStr b"
    and vars: "build_snowplow_vars r = Inr vars"
    and handle: "handle_project_dir fits answer now out_root (''dbt_'' @ slugify_str b) = Inr root1"
    and free: "root1 (''dbt_'' @ slugify_str b) = None"
    and f0: "fits [''dbt_'' @ slugify_str b]"
    and f1: "fits [''dbt_'' @ slugify_str b, ''packages.yml'']"
    and f2: "fits [''dbt_'' @ slugify_str b, ''dbt_project.yml'']"
    and f3: "fits [''dbt_'' @ slugify_str b, ''profiles.example.yml'']"
    and f4: "fits [''dbt_'' @ slugify_str b, ''README.md'']"
    and f5: "fits [''dbt_'' @ slugify_str b, ''models'']"
  shows "generate_project_for_customer emit fits answer now today r out_root package_git package_ref
         = Inr (root1(''dbt_'' @ slugify_str b \<mapsto>
                  Dir [''packages.yml'' \<mapsto> File (emit (packages_obj package_git package_ref)),
                       ''dbt_project.yml'' \<mapsto>
                          File (emit (dbt_project_obj (''snowplow_unified_for_'' @ slugify_str b) vars)),
                       ''profiles.example.yml'' \<mapsto> File profiles_example,
                       ''README.md'' \<mapsto>
                          File (readme (''snowplow_unified_for_'' @ slugify_str b) today b),
                       ''models'' \<mapsto> Dir Map.empty]),
                ''dbt_'' @ slugify_str b)"
proof -
  define name where "name = ''dbt_'' @ slugify_str b"
  define root2 where "root2 = root1(name \<mapsto> Dir Map.empty)"
  define d3 where "d3 = [''packages.yml'' \<mapsto> File (emit (packages_obj package_git package_ref))]"
  define d4 where "d4 = d3(''dbt_project.yml'' \<mapsto>
                          File (emit (dbt_project_obj (''snowplow_unified_for_'' @ slugify_str b) vars)))"
  define d5 where "d5 = d4(''profiles.example.yml'' \<mapsto> File profiles_example)"
  define d6 where "d6 = d5(''README.md'' \<mapsto>
                          File (readme (''snowplow_unified_for_'' @ slugify_str b) today b))"
  define d7 where "d7 = d6(''models'' \<mapsto> Dir Map.empty)"
  note fs = f0[folded name_def] f1[folded name_def] f2[folded name_def] f3[folded name_def]
    f4[folded name_def] f5[folded name_def]
  have h: "handle_project_dir fits answer now out_root name = Inr root1"
    using handle by (simp add: name_def)
  have m: "mkdir_project_dir fits root1 name = Inr root2"
    using free fs(1) by (simp add: mkdir_project_dir_fresh name_def root2_def)
  have s3: "dump_yaml emit (packages_obj package_git package_ref) fits root2 name ''packages.yml''
            = Inr (root1(name \<mapsto> Dir d3))"
    using dump_yaml_fresh[of fits name "''packages.yml''" root2 Map.empty] fs(2)
    by (simp add: root2_def d3_def)
  have s4: "dump_yaml emit (dbt_project_obj (''snowplow_unified_for_'' @ slugify_str b) vars)
              fits (root1(name \<mapsto> Dir d3)) name ''dbt_project.yml'' = Inr (root1(name \<mapsto> Dir d4))"
    using dump_yaml_fresh[of fits name "''dbt_project.yml''" "root1(name \<mapsto> Dir d3)" d3] fs(3)
    by (simp add: d3_def d4_def)
  have s5: "write_file fits (root1(name \<mapsto> Dir d4)) name ''profiles.example.yml'' profiles_example
            = Inr (root1(name \<mapsto> Dir d5))"
    using write_file_fresh[of fits name "''profiles.example.yml''" "root1(name \<mapsto> Dir d4)" d4]
      fs(1) fs(4)
    by (simp add: d3_def d4_def d5_def)
  have s6: "write_file fits (root1(name \<mapsto> Dir d5)) name ''README.md''
              (readme (''snowplow_unified_for_'' @ slugify_str b) today b)
            = Inr (root1(name \<mapsto> Dir d6))"
    using write_file_fresh[of fits name "''README.md''" "root1(name \<mapsto> Dir d5)" d5] fs(1) fs(5)
    by (simp add: d3_def d4_def d5_def d6_def)
  have "mkdir_exist_ok d6 ''models'' = Inr d7"
    by (simp add: mkdir_exist_ok_def d3_def d4_def d5_def d6_def d7_def)
  then have s7: "in_project_dir fits (root1(name \<mapsto> Dir d6)) name ''models''
                   (\<lambda>d. mkdir_exist_ok d ''models'')
            = Inr (root1(name \<mapsto> Dir d7))"
    using in_project_dir_Dir[of fits name "''models''" "root1(name \<mapsto> Dir d6)" d6
            "\<lambda>d. mkdir_exist_ok d ''models''" d7] fs(6)
    by simp
  have "generate_project_for_customer emit fits answer now today r out_root package_git package_ref
        = Inr (root1(name \<mapsto> Dir d7), name)"
    unfolding generate_project_for_customer_def brand json.case Let_def name_def[symmetric]
      h sum.case m s3 vars s4 s5 s6 s7 by (rule refl)
  then show ?thesis
    by (simp add: name_def d7_def d6_def d5_def d4_def d3_def)
qed

lemma handle_project_dir_too_long:
  assumes "fits [name]" and "out_root name = Some existing" and "answer = Some line"
    and "py_lower (py_strip line) \<noteq> ''y''" and "\<not> fits [name @ ''_old_'' @ now]"
  shows "handle_project_dir fits answer now out_root name = Inl (OSError, out_root)"
  using assms by (simp add: handle_project_dir_def shutil_move_def Let_def)

lemma utf8_length_append: "utf8_length (a @ b) = utf8_length a + utf8_length b"
  by (simp add: utf8_length_def)

lemma archive_name_too_long:
  "255 < utf8_length name + 5 + utf8_length now \<Longrightarrow> \<not> name_max_255 [name @ ''_old_'' @ now]"
proof -
  have "utf8_length ''_old_'' = 5" by (simp add: utf8_length_def)
  then have "utf8_length (name @ ''_old_'' @ now) = utf8_length name + 5 + utf8_length now"
    by (simp only: utf8_length_append)
  then show "255 < utf8_length name + 5 + utf8_length now \<Longrightarrow> \<not> name_max_255 [name @ ''_old_'' @ now]"
    by (simp add: name_max_255_def)
qed

text \<open>
  C9 (as amended). Let the project directory exist and let a response be read that is
  not \<open>"y"\<close> once whitespace is stripped and letters are lowercased (the empty response
  is one). Then no prior file is deleted: \<open>handle_project_dir\<close> either raises and leaves
  the output root as it was, or moves the prior directory, unchanged, to the archive name
  (the directory's name followed by \<open>"_old_"\<close> and the time stamp), or, where that is
  already a directory without an entry of the project's name, into it; no other entry is
  touched. If moreover the system accepts both names and nothing exists yet under the
  archive name, the prior directory is under the archive name, the directory then made at
  the original path is empty, and the generation, when the variables block can be built
  and the system accepts the paths of the five generated entries, ends with exactly these
  entries in it.
\<close>

theorem collision_rename:
  assumes "out_root name = Some (Dir d)" and "answer = Some line"
    and "py_lower (py_strip line) \<noteq> ''y''"
  shows "((\<exists>e. handle_project_dir fits answer now out_root name = Inl (e, out_root))
          \<or> (out_root (name @ ''_old_'' @ now) = None
              \<and> handle_project_dir fits answer now out_root name
                  = Inr ((out_root(name := None))(name @ ''_old_'' @ now \<mapsto> Dir d)))
          \<or> (\<exists>entries. out_root (name @ ''_old_'' @ now) = Some (Dir entries) \<and> entries name = None
                \<and> handle_project_dir fits answer now out_root name
                    = Inr ((out_root(name := None))
                             (name @ ''_old_'' @ now \<mapsto> Dir (entries(name \<mapsto> Dir d))))))
         \<and> (fits [name] \<and> fits [name @ ''_old_'' @ now] \<and> out_root (name @ ''_old_'' @ now) = None \<longrightarrow>
              handle_project_dir fits answer now out_root name
                = Inr ((out_root(name := None))(name @ ''_old_'' @ now \<mapsto> Dir d))
              \<and> mkdir_project_dir fits ((out_root(name := None))(name @ ''_old_'' @ now \<mapsto> Dir d)) name
                = Inr ((out_root(name := None))(name @ ''_old_'' @ now \<mapsto> Dir d, name \<mapsto> Dir Map.empty))
              \<and> (dict_get r ''brand_name'' (JStr ''unnamed_brand'') = JStr b
                   \<and> name = ''dbt_'' @ slugify_str b \<and> build_snowplow_vars r = Inr vars
                   \<and> fits [name, ''packages.yml''] \<and> fits [name, ''dbt_project.yml'']
                   \<and> fits [name, ''profiles.example.yml''] \<and> fits [name, ''README.md'']
                   \<and> fits [name, ''models''] \<longrightarrow>
                   generate_project_for_customer emit fits answer now today r out_root package_git package_ref
                   = Inr ((out_root(name := None))
                            (name @ ''_old_'' @ now \<mapsto> Dir d,
                             name \<mapsto>
                               Dir [''packages.yml'' \<mapsto> File (emit (packages_obj package_git package_ref)),
                                    ''dbt_project.yml'' \<mapsto>
                                       File (emit (dbt_project_obj (''snowplow_unified_for_'' @ slugify_str b) vars)),
                                    ''profiles.example.yml'' \<mapsto> File profiles_example,
                                    ''README.md'' \<mapsto>
                                       File (readme (''snowplow_unified_for_'' @ slugify_str b) today b),
                                    ''models'' \<mapsto> Dir Map.empty]),
                          name)))"
proof (rule conjI)
  show "(\<exists>e. handle_project_dir fits answer now out_root name = Inl (e, out_root))
          \<or> (out_root (name @ ''_old_'' @ now) = None
              \<and> handle_project_dir fits answer now out_root name
                  = Inr ((out_root(name := None))(name @ ''_old_'' @ now \<mapsto> Dir d)))
          \<or> (\<exists>entries. out_root (name @ ''_old_'' @ now) = Some (Dir entries) \<and> entries name = None
                \<and> handle_project_dir fits answer now out_root name
                    = Inr ((out_root(name := None))
                             (name @ ''_old_'' @ now \<mapsto> Dir (entries(name \<mapsto> Dir d)))))"
    using assms by (rule handle_project_dir_keeps_dir[of out_root name d answer line fits now])
next
  define root1 where "root1 = (out_root(name := None))(name @ ''_old_'' @ now \<mapsto> Dir d)"
  have free: "root1 name = None" by (simp add: root1_def)
  have B: "handle_project_dir fits answer now out_root name = Inr root1
           \<and> mkdir_project_dir fits root1 name = Inr (root1(name \<mapsto> Dir Map.empty))
           \<and> (dict_get r ''brand_name'' (JStr ''unnamed_brand'') = JStr b
                   \<and> name = ''dbt_'' @ slugify_str b \<and> build_snowplow_vars r = Inr vars
                   \<and> fits [name, ''packages.yml''] \<and> fits [name, ''dbt_project.yml'']
                   \<and> fits [name, ''profiles.example.yml''] \<and> fits [name, ''README.md'']
                   \<and> fits [name, ''models''] \<longrightarrow>
                generate_project_for_customer emit fits answer now today r out_root package_git package_ref
                = Inr (root1(name \<mapsto>
                               Dir [''packages.yml'' \<mapsto> File (emit (packages_obj package_git package_ref)),
                                    ''dbt_project.yml'' \<mapsto>
                                       File (emit (dbt_project_obj (''snowplow_unified_for_'' @ slugify_str b) vars)),
                                    ''profiles.example.yml'' \<mapsto> File profiles_example,
                                    ''README.md'' \<mapsto>
                                       File (readme (''snowplow_unified_for_'' @ slugify_str b) today b),
                                    ''models'' \<mapsto> Dir Map.empty]),
                          name))"
    if hyp: "fits [name] \<and> fits [name @ ''_old_'' @ now] \<and> out_root (name @ ''_old_'' @ now) = None"
  proof -
    from hyp have f0: "fits [name]" by (rule conjunct1)
    from hyp have fa: "fits [name @ ''_old_'' @ now]" by (elim conjE)
    from hyp have fr: "out_root (name @ ''_old_'' @ now) = None" by (elim conjE)
    have h: "handle_project_dir fits answer now out_root name = Inr root1"
      unfolding root1_def
      using f0 assms(1) assms(2) assms(3) fa fr
      by (rule handle_project_dir_rename[of fits name out_root "Dir d" answer line now])
    have m: "mkdir_project_dir fits root1 name = Inr (root1(name \<mapsto> Dir Map.empty))"
      using f0 free by (rule mkdir_project_dir_fresh[of fits name root1])
    have g: "dict_get r ''brand_name'' (JStr ''unnamed_brand'') = JStr b
                   \<and> name = ''dbt_'' @ slugify_str b \<and> build_snowplow_vars r = Inr vars
                   \<and> fits [name, ''packages.yml''] \<and> fits [name, ''dbt_project.yml'']
                   \<and> fits [name, ''profiles.example.yml''] \<and> fits [name, ''README.md'']
                   \<and> fits [name, ''models''] \<longrightarrow>
             generate_project_for_customer emit fits answer now today r out_root package_git package_ref
                = Inr (root1(name \<mapsto>
                               Dir [''packages.yml'' \<mapsto> File (emit (packages_obj package_git package_ref)),
                                    ''dbt_project.yml'' \<mapsto>
                                       File (emit (dbt_project_obj (''snowplow_unified_for_'' @ slugify_str b) vars)),
                                    ''profiles.example.yml'' \<mapsto> File profiles_example,
                                    ''README.md'' \<mapsto>
                                       File (readme (''snowplow_unified_for_'' @ slugify_str b) today b),
                                    ''models'' \<mapsto> Dir Map.empty]),
                          name)"
    proof (intro impI, elim conjE)
      assume b: "dict_get r ''brand_name'' (JStr ''unnamed_brand'') = JStr b"
        and n: "name = ''dbt_'' @ slugify_str b" and v: "build_snowplow_vars r = Inr vars"
        and f1: "fits [name, ''packages.yml'']" and f2: "fits [name, ''dbt_project.yml'']"
        and f3: "fits [name, ''profiles.example.yml'']" and f4: "fits [name, ''README.md'']"
        and f5: "fits [name, ''models'']"
      show "generate_project_for_customer emit fits answer now today r out_root package_git package_ref
                = Inr (root1(name \<mapsto>
                               Dir [''packages.yml'' \<mapsto> File (emit (packages_obj package_git package_ref)),
                                    ''dbt_project.yml'' \<mapsto>
                                       File (emit (dbt_project_obj (''snowplow_unified_for_'' @ slugify_str b) vars)),
                                    ''profiles.example.yml'' \<mapsto> File profiles_example,
                                    ''README.md'' \<mapsto>
                                       File (readme (''snowplow_unified_for_'' @ slugify_str b) today b),
                                    ''models'' \<mapsto> Dir Map.empty]),
                          name)"
        using generate_after_handle[of r b vars fits answer now out_root root1,
                OF b v h[unfolded n] free[unfolded n] f0[unfolded n] f1[unfolded n]
                   f2[unfolded n] f3[unfolded n] f4[unfolded n] f5[unfolded n]]
        unfolding n .
    qed
    from h m g show ?thesis by (intro conjI)
  qed
  then show "fits [name] \<and> fits [name @ ''_old_'' @ now] \<and> out_root (name @ ''_old_'' @ now) = None \<longrightarrow>
              handle_project_dir fits answer now out_root name
                = Inr ((out_root(name := None))(name @ ''_old_'' @ now \<mapsto> Dir d))
              \<and> mkdir_project_dir fits ((out_root(name := None))(name @ ''_old_'' @ now \<mapsto> Dir d)) name
                = Inr ((out_root(name := None))(name @ ''_old_'' @ now \<mapsto> Dir d, name \<mapsto> Dir Map.empty))
              \<and> (dict_get r ''brand_name'' (JStr ''unnamed_brand'') = JStr b
                   \<and> name = ''dbt_'' @ slugify_str b \<and> build_snowplow_vars r = Inr vars
                   \<and> fits [name, ''packages.yml''] \<and> fits [name, ''dbt_project.yml'']
                   \<and> fits [name, ''profiles.example.yml''] \<and> fits [name, ''README.md'']
                   \<and> fits [name, ''models''] \<longrightarrow>
                   generate_project_for_customer emit fits answer now today r out_root package_git package_ref
                   = Inr ((out_root(name := None))
                            (name @ ''_old_'' @ now \<mapsto> Dir d,
                             name \<mapsto>
                               Dir [''packages.yml'' \<mapsto> File (emit (packages_obj package_git package_ref)),
                                    ''dbt_project.yml'' \<mapsto>
                                       File (emit (dbt_project_obj (''snowplow_unified_for_'' @ slugify_str b) vars)),
                                    ''profiles.example.yml'' \<mapsto> File profiles_example,
                                    ''README.md'' \<mapsto>
                                       File (readme (''snowplow_unified_for_'' @ slugify_str b) today b),
                                    ''models'' \<mapsto> Dir Map.empty]),
                          name))"
    unfolding root1_def by (rule impI)
qed

theorem collision_rename_witness:
  "handle_project_dir name_max_255 (Some []) ''20250101_120000''
     [''dbt_acme'' \<mapsto> Dir [''README.md'' \<mapsto> File ''old'']] ''dbt_acme''
   = Inr ([''dbt_acme'' \<mapsto> Dir [''README.md'' \<mapsto> File ''old'']]
            (''dbt_acme'' := None,
             ''dbt_acme'' @ ''_old_'' @ ''20250101_120000'' \<mapsto> Dir [''README.md'' \<mapsto> File ''old'']))"
proof -
  let ?root = "[''dbt_acme'' \<mapsto> Dir [''README.md'' \<mapsto> File ''old'']]"
  have 1: "?root ''dbt_acme'' = Some (Dir [''README.md'' \<mapsto> File ''old''])" by simp
  have 2: "py_lower (py_strip []) \<noteq> ''y''" by (simp add: py_strip_def py_lower_def)
  have 3: "name_max_255 [''dbt_acme'']" by (simp add: name_max_255_def utf8_length_def)
  have 4: "name_max_255 [''dbt_acme'' @ ''_old_'' @ ''20250101_120000'']"
    by (simp add: name_max_255_def utf8_length_def)
  have 5: "?root (''dbt_acme'' @ ''_old_'' @ ''20250101_120000'') = None" by simp
  from 3 4 5 have hyps:
    "name_max_255 [''dbt_acme''] \<and> name_max_255 [''dbt_acme'' @ ''_old_'' @ ''20250101_120000'']
       \<and> ?root (''dbt_acme'' @ ''_old_'' @ ''20250101_120000'') = None"
    by (intro conjI)
  note t = collision_rename[of ?root "''dbt_acme''" "[''README.md'' \<mapsto> File ''old'']" "Some []" "[]"
             name_max_255 "''20250101_120000''", OF 1 refl 2]
  show ?thesis by (rule t[THEN conjunct2, THEN mp, OF hyps, THEN conjunct1])
qed

text \<open>
  The claim as stated fails when the archive name is taken: if it is a directory that
  already holds an entry with the project directory's name (a second collision within
  the same second leaves this behind), \<open>shutil.move\<close> raises, nothing is renamed, and by
  \<open>generate_handle_error\<close> the generation stops with that error. It fails in the same
  way, by \<open>handle_project_dir_too_long\<close>, when the archive name is too long for the
  system.
\<close>

theorem collision_rename_counterexample:
  "handle_project_dir name_max_255 (Some []) ''20250101_120000''
     [''dbt_x'' \<mapsto> Dir Map.empty,
      ''dbt_x_old_20250101_120000'' \<mapsto> Dir [''dbt_x'' \<mapsto> Dir Map.empty]] ''dbt_x''
   = Inl (ShutilError,
          [''dbt_x'' \<mapsto> Dir Map.empty,
           ''dbt_x_old_20250101_120000'' \<mapsto> Dir [''dbt_x'' \<mapsto> Dir Map.empty]])"
  by (simp add: handle_project_dir_def shutil_move_def py_strip_def py_lower_def
                name_max_255_def utf8_length_def)

end
